theory Spec2Isabelle
  imports Complex_Main
begin

section \<open>Tick series and nearest-tick lookup\<close>

text \<open>
  A tick is the pair \<open>(epoch_ms, price)\<close> built by \<open>load_ticks\<close>. The timestamp is a
  Python integer (unbounded, hence \<open>int\<close>). The price is a Python float; it is modelled
  as a real number, that is, the arithmetic on prices is taken to be exact. In the concrete
  runs below that refute a statement, the prices are dyadic rationals, and every value on
  which the source branches there is either exact in double precision or far from the
  bound it is compared with.
\<close>

type_synonym tick = "int \<times> real"

datatype py_error = IndexError | ZeroDivisionError | KeyError | StatisticsError

text \<open>
  The \<open>while lo < hi\<close> loop of \<open>find_nearest_idx\<close>. It is entered with \<open>lo = 0\<close> and
  \<open>hi = n - 1\<close> on a non-empty list, and \<open>mid\<close> stays below \<open>hi\<close>, so that
  \<open>ticks[mid]\<close> is always inside the list.
\<close>

function bisect_loop :: "tick list \<Rightarrow> int \<Rightarrow> nat \<Rightarrow> nat \<Rightarrow> nat" where
  "bisect_loop ticks target_ms lo hi =
     (if lo < hi then
        (let mid = (lo + hi) div 2 in
         if fst (ticks ! mid) < target_ms
         then bisect_loop ticks target_ms (mid + 1) hi
         else bisect_loop ticks target_ms lo mid)
      else lo)"
  by pat_completeness auto
termination
  by (relation "measure (\<lambda>(ticks, target_ms, lo, hi). hi - lo)") auto

declare bisect_loop.simps [simp del]

definition find_nearest_idx :: "tick list \<Rightarrow> int \<Rightarrow> nat" where
  "find_nearest_idx ticks target_ms =
     (let n = length ticks in
      if n = 0 then 0
      else
        (let lo = bisect_loop ticks target_ms 0 (n - 1) in
         if lo > 0 \<and> \<bar>fst (ticks ! lo) - target_ms\<bar> > \<bar>fst (ticks ! (lo - 1)) - target_ms\<bar>
         then lo - 1
         else lo))"

text \<open>
  \<open>price_at_time\<close> indexes the list with the result of \<open>find_nearest_idx\<close>; on the
  empty list the index 0 is out of range and Python raises \<open>IndexError\<close>.
\<close>

definition price_at_time :: "tick list \<Rightarrow> int \<Rightarrow> py_error + tick" where
  "price_at_time ticks ms =
     (let idx = find_nearest_idx ticks ms in
      if idx < length ticks then Inr (ticks ! idx) else Inl IndexError)"


section \<open>Helpers for the Python primitives used by the analysis\<close>

text \<open>Sequencing of computations that may raise: the first exception ends the run.\<close>

definition bind_err :: "py_error + 'a \<Rightarrow> ('a \<Rightarrow> py_error + 'b) \<Rightarrow> py_error + 'b" where
  "bind_err m f = (case m of Inl e \<Rightarrow> Inl e | Inr x \<Rightarrow> f x)"

text \<open>True division of floats raises \<open>ZeroDivisionError\<close> on a zero divisor.\<close>

definition py_div :: "real \<Rightarrow> real \<Rightarrow> py_error + real" where
  "py_div a b = (if b = 0 then Inl ZeroDivisionError else Inr (a / b))"

text \<open>\<open>int(x)\<close> on a float truncates towards zero.\<close>

definition py_int :: "real \<Rightarrow> int" where
  "py_int x = (if 0 \<le> x then \<lfloor>x\<rfloor> else \<lceil>x\<rceil>)"

text \<open>
  \<open>xs[i]\<close>: a negative index counts from the end of the list, and an index outside the
  list raises \<open>IndexError\<close>.
\<close>

definition list_get :: "'a list \<Rightarrow> int \<Rightarrow> py_error + 'a" where
  "list_get xs i =
     (if 0 \<le> i \<and> i < int (length xs) then Inr (xs ! nat i)
      else if i < 0 \<and> - int (length xs) \<le> i then Inr (xs ! nat (int (length xs) + i))
      else Inl IndexError)"

text \<open>\<open>d[k]\<close> on a dict raises \<open>KeyError\<close> for a missing key.\<close>

definition dict_get :: "('k \<rightharpoonup> 'v) \<Rightarrow> 'k \<Rightarrow> py_error + 'v" where
  "dict_get d k = (case d k of None \<Rightarrow> Inl KeyError | Some v \<Rightarrow> Inr v)"

text \<open>\<open>range(start, stop, step)\<close> for a positive step.\<close>

definition py_range :: "nat \<Rightarrow> nat \<Rightarrow> nat \<Rightarrow> nat list" where
  "py_range start stop step =
     map (\<lambda>k. start + k * step) [0 ..< (stop - start + step - 1) div step]"

text \<open>
  \<open>round(x, ndigits)\<close>: the nearest multiple of \<open>10 ^ (- ndigits)\<close>, a tie going to
  the even multiple.
\<close>

definition py_round :: "real \<Rightarrow> nat \<Rightarrow> real" where
  "py_round x ndigits =
     (let s = x * 10 ^ ndigits; f = \<lfloor>s\<rfloor>; d = s - of_int f in
      of_int (if d < 1 / 2 then f else if 1 / 2 < d then f + 1
              else if even f then f else f + 1) / 10 ^ ndigits)"

text \<open>\<open>statistics.mean\<close> raises \<open>StatisticsError\<close> on an empty sample.\<close>

definition mean :: "real list \<Rightarrow> py_error + real" where
  "mean xs = (if xs = [] then Inl StatisticsError else Inr (sum_list xs / real (length xs)))"

text \<open>The expression \<open>(p1 - p0) / p0 * 100\<close> that the three analyses share.\<close>

definition pct_change :: "real \<Rightarrow> real \<Rightarrow> py_error + real" where
  "pct_change p1 p0 = bind_err (py_div (p1 - p0) p0) (\<lambda>d. Inr (d * 100))"

section \<open>Statistics utilities\<close>

definition percentile :: "real list \<Rightarrow> real \<Rightarrow> py_error + real" where
  "percentile sorted_list pct =
     (if sorted_list = [] then Inr 0
      else
        (let idx = py_int (real (length sorted_list) * pct / 100);
             idx = max 0 (min idx (int (length sorted_list) - 1))
         in list_get sorted_list idx))"

section \<open>Part 1: rolling leverage ratio\<close>

text \<open>
  The body of the loop over the sampled reference ticks for one window. \<open>None\<close> is a
  \<open>continue\<close>; \<open>Some (t, s)\<close> are the two ratios appended to \<open>t_ratios\<close> and
  \<open>s_ratios\<close>.
\<close>

definition ratio_sample ::
  "tick list \<Rightarrow> tick list \<Rightarrow> tick list \<Rightarrow> int \<Rightarrow> nat \<Rightarrow> py_error + (real \<times> real) option" where
  "ratio_sample qqq tqqq sqqq window_ms i =
     (case qqq ! i of (q0_ms, q0_p) \<Rightarrow>
      bind_err (price_at_time qqq (q0_ms + window_ms)) (\<lambda>(q1_ms, q1_p).
        let actual_gap = q1_ms - q0_ms in
        if real_of_int actual_gap < real_of_int window_ms * 0.5
           \<or> real_of_int actual_gap > real_of_int window_ms * 1.5
        then Inr None
        else
          bind_err (pct_change q1_p q0_p) (\<lambda>q_pct.
            if \<bar>q_pct\<bar> < 0.005 then Inr None
            else
              bind_err (price_at_time tqqq q0_ms) (\<lambda>(t0_ms, t0_p).
              bind_err (price_at_time tqqq (q0_ms + window_ms)) (\<lambda>(t1_ms, t1_p).
              bind_err (pct_change t1_p t0_p) (\<lambda>t_pct.
              bind_err (price_at_time sqqq q0_ms) (\<lambda>(s0_ms, s0_p).
              bind_err (price_at_time sqqq (q0_ms + window_ms)) (\<lambda>(s1_ms, s1_p).
              bind_err (pct_change s1_p s0_p) (\<lambda>s_pct.
                if q_pct \<noteq> 0
                then bind_err (py_div t_pct q_pct) (\<lambda>t_ratio.
                     bind_err (py_div s_pct q_pct) (\<lambda>s_ratio.
                       Inr (Some (t_ratio, s_ratio))))
                else Inr None)))))))))"

fun ratio_loop ::
  "tick list \<Rightarrow> tick list \<Rightarrow> tick list \<Rightarrow> int \<Rightarrow> nat list \<Rightarrow> real list \<times> real list
     \<Rightarrow> py_error + (real list \<times> real list)" where
  "ratio_loop qqq tqqq sqqq window_ms [] acc = Inr acc"
| "ratio_loop qqq tqqq sqqq window_ms (i # rest) (t_ratios, s_ratios) =
     (case ratio_sample qqq tqqq sqqq window_ms i of
        Inl e \<Rightarrow> Inl e
      | Inr None \<Rightarrow> ratio_loop qqq tqqq sqqq window_ms rest (t_ratios, s_ratios)
      | Inr (Some (t_ratio, s_ratio)) \<Rightarrow>
          ratio_loop qqq tqqq sqqq window_ms rest (t_ratios @ [t_ratio], s_ratios @ [s_ratio]))"

text \<open>
  What is printed for one window: the aggregate statistics of both derived series, or the
  line \<open>insufficient data points (n)\<close>.
\<close>

record ratio_stats =
  n_samples :: nat
  t_med :: real
  t_p10 :: real
  t_p90 :: real
  t_mae :: real
  s_med :: real
  s_p10 :: real
  s_p90 :: real
  s_mae :: real

datatype window_report = Stats ratio_stats | Insufficient nat

definition window_summary :: "real list \<Rightarrow> real list \<Rightarrow> py_error + window_report" where
  "window_summary t_ratios s_ratios =
     (if length t_ratios > 10 then
        (let t_sorted = sort t_ratios; s_sorted = sort s_ratios in
         bind_err (percentile t_sorted 50) (\<lambda>tm.
         bind_err (percentile t_sorted 10) (\<lambda>t10.
         bind_err (percentile t_sorted 90) (\<lambda>t90.
         bind_err (percentile s_sorted 50) (\<lambda>sm.
         bind_err (percentile s_sorted 10) (\<lambda>s10.
         bind_err (percentile s_sorted 90) (\<lambda>s90.
         bind_err (mean (map (\<lambda>r. \<bar>r - 3.0\<bar>) t_ratios)) (\<lambda>tmae.
         bind_err (mean (map (\<lambda>r. \<bar>r - (- 3.0)\<bar>) s_ratios)) (\<lambda>smae.
           Inr (Stats \<lparr>n_samples = length t_ratios,
                  t_med = py_round tm 3, t_p10 = py_round t10 3, t_p90 = py_round t90 3,
                  t_mae = py_round tmae 3,
                  s_med = py_round sm 3, s_p10 = py_round s10 3, s_p90 = py_round s90 3,
                  s_mae = py_round smae 3\<rparr>))))))))))
      else Inr (Insufficient (length t_ratios)))"

definition rolling_window ::
  "tick list \<Rightarrow> tick list \<Rightarrow> tick list \<Rightarrow> int \<Rightarrow> py_error + window_report" where
  "rolling_window qqq tqqq sqqq window_sec =
     (let window_ms = window_sec * 1000;
          step = max 1 (length qqq div 500) in
      bind_err (ratio_loop qqq tqqq sqqq window_ms (py_range 0 (length qqq) step) ([], []))
        (\<lambda>(t_ratios, s_ratios). window_summary t_ratios s_ratios))"

section \<open>Part 2: price response lag\<close>

definition move_threshold_pct :: real where
  "move_threshold_pct = 0.03"

definition move_window_ms :: int where
  "move_window_ms = 10000"

definition watch_steps :: "int list" where
  "watch_steps = [0, 1000, 2000, 5000, 10000, 20000, 30000]"

text \<open>
  The loop that fills the dicts \<open>t_responses\<close> and \<open>s_responses\<close>, one entry per
  offset; \<open>base_ms\<close> is \<open>q0_ms + move_window_ms\<close>.
\<close>

fun watch_loop ::
  "tick list \<Rightarrow> tick list \<Rightarrow> int \<Rightarrow> real \<Rightarrow> real \<Rightarrow> int list
     \<Rightarrow> (int \<rightharpoonup> real) \<times> (int \<rightharpoonup> real) \<Rightarrow> py_error + ((int \<rightharpoonup> real) \<times> (int \<rightharpoonup> real))" where
  "watch_loop tqqq sqqq base_ms t0_p s0_p [] acc = Inr acc"
| "watch_loop tqqq sqqq base_ms t0_p s0_p (offset # rest) (t_responses, s_responses) =
     (case price_at_time tqqq (base_ms + offset) of
        Inl e \<Rightarrow> Inl e
      | Inr t_check \<Rightarrow>
     (case price_at_time sqqq (base_ms + offset) of
        Inl e \<Rightarrow> Inl e
      | Inr s_check \<Rightarrow>
     (case pct_change (snd t_check) t0_p of
        Inl e \<Rightarrow> Inl e
      | Inr t_actual_pct \<Rightarrow>
     (case pct_change (snd s_check) s0_p of
        Inl e \<Rightarrow> Inl e
      | Inr s_actual_pct \<Rightarrow>
          watch_loop tqqq sqqq base_ms t0_p s0_p rest
            (t_responses(offset \<mapsto> t_actual_pct), s_responses(offset \<mapsto> s_actual_pct))))))"

text \<open>
  The conditional expression \<open>(x / expected * 100) if expected != 0 else 100\<close>, which
  gives \<open>t_achieved\<close>, \<open>s_achieved\<close> and the \<open>ratio\<close> of the catch-up scan.
\<close>

definition achieved :: "real \<Rightarrow> real \<Rightarrow> py_error + real" where
  "achieved x expected =
     (if expected \<noteq> 0 then bind_err (py_div x expected) (\<lambda>d. Inr (d * 100)) else Inr 100)"

text \<open>
  The catch-up scan: \<open>t_catchup_ms\<close> starts at \<open>-1\<close> and the loop breaks at the first
  offset whose ratio is at least 90.
\<close>

fun catchup_loop :: "(int \<rightharpoonup> real) \<Rightarrow> real \<Rightarrow> int list \<Rightarrow> py_error + int" where
  "catchup_loop t_responses expected [] = Inr (- 1)"
| "catchup_loop t_responses expected (offset # rest) =
     (case dict_get t_responses offset of
        Inl e \<Rightarrow> Inl e
      | Inr t_pct \<Rightarrow>
     (case achieved t_pct expected of
        Inl e \<Rightarrow> Inl e
      | Inr ratio \<Rightarrow>
          if ratio \<ge> 90 then Inr offset else catchup_loop t_responses expected rest))"

record move_event =
  direction :: string
  qqq_move_pct :: real
  expected_tqqq :: real
  tqqq_at_end :: real
  t_achieved_pct :: real
  t_catchup_ms :: int
  expected_sqqq :: real
  sqqq_at_end :: real
  s_achieved_pct :: real

text \<open>
  The body of the detection loop for the sampled reference tick \<open>i\<close>: \<open>None\<close> is a
  \<open>continue\<close>, \<open>Some e\<close> the dict appended to \<open>move_events\<close>.
\<close>

definition detect_move ::
  "tick list \<Rightarrow> tick list \<Rightarrow> tick list \<Rightarrow> nat \<Rightarrow> py_error + move_event option" where
  "detect_move qqq tqqq sqqq i =
     (case qqq ! i of (q0_ms, q0_p) \<Rightarrow>
      bind_err (price_at_time qqq (q0_ms + move_window_ms)) (\<lambda>(q1_ms, q1_p).
        let gap = q1_ms - q0_ms in
        if gap < 5000 \<or> gap > 15000 then Inr None
        else
          bind_err (pct_change q1_p q0_p) (\<lambda>q_pct.
            if \<bar>q_pct\<bar> < move_threshold_pct then Inr None
            else
              (let dir = (if q_pct > 0 then ''UP'' else ''DOWN'');
                   exp_t = q_pct * 3;
                   exp_s = q_pct * (- 3) in
               bind_err (price_at_time tqqq q0_ms) (\<lambda>(t0_ms, t0_p).
               bind_err (price_at_time sqqq q0_ms) (\<lambda>(s0_ms, s0_p).
               bind_err (watch_loop tqqq sqqq (q0_ms + move_window_ms) t0_p s0_p watch_steps
                           (Map.empty, Map.empty)) (\<lambda>(t_responses, s_responses).
               bind_err (dict_get t_responses 0) (\<lambda>t_at_end.
               bind_err (dict_get s_responses 0) (\<lambda>s_at_end.
               bind_err (achieved t_at_end exp_t) (\<lambda>t_achieved.
               bind_err (achieved s_at_end exp_s) (\<lambda>s_achieved.
               bind_err (catchup_loop t_responses exp_t watch_steps) (\<lambda>catchup.
                 Inr (Some \<lparr>direction = dir,
                        qqq_move_pct = py_round q_pct 4,
                        expected_tqqq = py_round exp_t 4,
                        tqqq_at_end = py_round t_at_end 4,
                        t_achieved_pct = py_round t_achieved 1,
                        t_catchup_ms = catchup,
                        expected_sqqq = py_round exp_s 4,
                        sqqq_at_end = py_round s_at_end 4,
                        s_achieved_pct = py_round s_achieved 1\<rparr>)))))))))))))"

fun move_loop ::
  "tick list \<Rightarrow> tick list \<Rightarrow> tick list \<Rightarrow> nat list \<Rightarrow> move_event list
     \<Rightarrow> py_error + move_event list" where
  "move_loop qqq tqqq sqqq [] move_events = Inr move_events"
| "move_loop qqq tqqq sqqq (i # rest) move_events =
     (case detect_move qqq tqqq sqqq i of
        Inl e \<Rightarrow> Inl e
      | Inr None \<Rightarrow> move_loop qqq tqqq sqqq rest move_events
      | Inr (Some ev) \<Rightarrow> move_loop qqq tqqq sqqq rest (move_events @ [ev]))"

definition detect_moves :: "tick list \<Rightarrow> tick list \<Rightarrow> tick list \<Rightarrow> py_error + move_event list" where
  "detect_moves qqq tqqq sqqq =
     (let step = max 1 (length qqq div 1000) in
      move_loop qqq tqqq sqqq (py_range 0 (length qqq) step) [])"

text \<open>
  The move/lag detector in the words of the specification (section 4.4), for comparison
  with \<open>detect_move\<close>: the reference move over the detection window from the sampled
  tick \<open>i\<close>, the response of a derived series at a forward offset (its percentage change
  from its tick nearest \<open>T0\<close> to its tick nearest \<open>T0 + detection_window + offset\<close>),
  and the catch-up offset (the first offset of the ladder, in ascending order, at which
  response / expected * 100 is at least 90, or the sentinel \<open>-1\<close>).
\<close>

definition spec_reference_move_pct :: "tick list \<Rightarrow> nat \<Rightarrow> real" where
  "spec_reference_move_pct reference i =
     (snd (reference ! find_nearest_idx reference (fst (reference ! i) + move_window_ms))
        - snd (reference ! i)) / snd (reference ! i) * 100"

definition spec_response_pct :: "tick list \<Rightarrow> tick list \<Rightarrow> nat \<Rightarrow> int \<Rightarrow> real" where
  "spec_response_pct reference derived i offset =
     (snd (derived ! find_nearest_idx derived (fst (reference ! i) + move_window_ms + offset))
        - snd (derived ! find_nearest_idx derived (fst (reference ! i))))
       / snd (derived ! find_nearest_idx derived (fst (reference ! i))) * 100"

definition spec_catchup_offset_ms :: "tick list \<Rightarrow> tick list \<Rightarrow> real \<Rightarrow> nat \<Rightarrow> int" where
  "spec_catchup_offset_ms reference derived leverage i =
     (case find (\<lambda>offset. spec_response_pct reference derived i offset
                             / (spec_reference_move_pct reference i * leverage) * 100 \<ge> 90)
             watch_steps of
        Some offset \<Rightarrow> offset
      | None \<Rightarrow> - 1)"

section \<open>Part 3: stop-trigger scenario\<close>

definition cooldown_ms :: int where
  "cooldown_ms = 60000"

record trigger_event =
  qqq_drop :: real
  tqqq_drop :: real
  ratio :: real
  tick_gap_ms :: int

text \<open>The variables that the loop over the reference ticks updates.\<close>

record stop_state =
  hwm :: real
  t_hwm :: real
  last_trigger_ms :: int
  trigger_events :: "trigger_event list"

text \<open>The two \<open>if\<close> statements under the comment \<open>Update HWMs\<close>.\<close>

definition update_hwms :: "stop_state \<Rightarrow> real \<Rightarrow> real \<Rightarrow> stop_state" where
  "update_hwms st q_p t_p =
     (let st1 = (if q_p > hwm st then st\<lparr>hwm := q_p, t_hwm := t_p\<rparr> else st) in
      if t_p > t_hwm st1 then st1\<lparr>t_hwm := t_p\<rparr> else st1)"

text \<open>The body of the loop for the reference tick \<open>(q_ms, q_p)\<close>.\<close>

definition stop_step :: "real \<Rightarrow> tick list \<Rightarrow> stop_state \<Rightarrow> tick \<Rightarrow> py_error + stop_state" where
  "stop_step stop_pct tqqq st q =
     (case q of (q_ms, q_p) \<Rightarrow>
      bind_err (price_at_time tqqq q_ms) (\<lambda>t_cur.
        let st1 = update_hwms st q_p (snd t_cur) in
        bind_err (py_div (hwm st1 - q_p) (hwm st1)) (\<lambda>d.
          let q_drop = d * 100 in
          if q_drop \<ge> stop_pct \<and> q_drop < stop_pct + 0.05
             \<and> q_ms - last_trigger_ms st1 > cooldown_ms
          then
            bind_err (py_div (t_hwm st1 - snd t_cur) (t_hwm st1)) (\<lambda>td.
              let t_drop = td * 100 in
              bind_err (if q_drop > 0 then py_div t_drop q_drop else Inr 0) (\<lambda>r.
                Inr (st1\<lparr>trigger_events := trigger_events st1 @
                          [\<lparr>qqq_drop = py_round q_drop 4,
                            tqqq_drop = py_round t_drop 4,
                            ratio = py_round r 3,
                            tick_gap_ms = \<bar>fst t_cur - q_ms\<bar>\<rparr>],
                        last_trigger_ms := q_ms,
                        hwm := q_p,
                        t_hwm := snd t_cur\<rparr>)))
          else Inr st1)))"

fun stop_loop ::
  "real \<Rightarrow> tick list \<Rightarrow> tick list \<Rightarrow> nat list \<Rightarrow> stop_state \<Rightarrow> py_error + stop_state" where
  "stop_loop stop_pct qqq tqqq [] st = Inr st"
| "stop_loop stop_pct qqq tqqq (i # rest) st =
     (case stop_step stop_pct tqqq st (qqq ! i) of
        Inl e \<Rightarrow> Inl e
      | Inr st' \<Rightarrow> stop_loop stop_pct qqq tqqq rest st')"

text \<open>
  One pass of the simulator for the threshold \<open>stop_pct\<close>: the initial values of the
  variables, then the loop over \<open>range(1, len(qqq), step)\<close>.
\<close>

definition stop_sim :: "real \<Rightarrow> tick list \<Rightarrow> tick list \<Rightarrow> py_error + stop_state" where
  "stop_sim stop_pct qqq tqqq =
     bind_err (list_get qqq 0) (\<lambda>q_first.
     bind_err (list_get tqqq 0) (\<lambda>t_first.
       let st = \<lparr>hwm = snd q_first, t_hwm = snd t_first,
                 last_trigger_ms = 0, trigger_events = []\<rparr>;
           step = max 1 (length qqq div 3000) in
       stop_loop stop_pct qqq tqqq (py_range 1 (length qqq) step) st))"

text \<open>
  The events of the source carry no timestamp. To speak about the time between two
  triggers, \<open>trigger_times\<close> lists, for a run of the loop from the state \<open>st\<close>, the
  timestamps of the reference ticks at which the body appends an event.
\<close>

fun trigger_times ::
  "real \<Rightarrow> tick list \<Rightarrow> tick list \<Rightarrow> nat list \<Rightarrow> stop_state \<Rightarrow> int list" where
  "trigger_times stop_pct qqq tqqq [] st = []"
| "trigger_times stop_pct qqq tqqq (i # rest) st =
     (case stop_step stop_pct tqqq st (qqq ! i) of
        Inl e \<Rightarrow> []
      | Inr st' \<Rightarrow>
          (if length (trigger_events st') > length (trigger_events st) then [fst (qqq ! i)] else [])
            @ trigger_times stop_pct qqq tqqq rest st')"

section \<open>Properties of the nearest-tick lookup\<close>

text \<open>The invariant of the bisection loop on a series sorted by timestamp.\<close>

lemma bisect_loop_post:
  assumes "sorted (map fst ticks)" "lo \<le> hi" "hi < length ticks"
    "\<forall>j<lo. fst (ticks ! j) < target"
    "hi = length ticks - 1 \<or> target \<le> fst (ticks ! hi)"
  shows "lo \<le> bisect_loop ticks target lo hi \<and> bisect_loop ticks target lo hi \<le> hi \<and>
     (\<forall>j<bisect_loop ticks target lo hi. fst (ticks ! j) < target) \<and>
     (bisect_loop ticks target lo hi = length ticks - 1 \<or>
        target \<le> fst (ticks ! bisect_loop ticks target lo hi))"
  using assms
proof (induction ticks target lo hi rule: bisect_loop.induct)
  case (1 ticks target lo hi)
  show ?case
  proof (cases "lo < hi")
    case False
    with "1.prems" show ?thesis by (simp add: bisect_loop.simps)
  next
    case True
    define mid where "mid = (lo + hi) div 2"
    have mid: "lo \<le> mid" "mid < hi" using True by (auto simp: mid_def)
    show ?thesis
    proof (cases "fst (ticks ! mid) < target")
      case lt: True
      have below: "\<forall>j<mid + 1. fst (ticks ! j) < target"
      proof (intro allI impI)
        fix j assume "j < mid + 1"
        then have "j \<le> mid" by simp
        moreover have "mid < length (map fst ticks)" using mid "1.prems" by simp
        ultimately have "map fst ticks ! j \<le> map fst ticks ! mid"
          using "1.prems"(1) by (simp add: sorted_iff_nth_mono)
        then show "fst (ticks ! j) < target" using lt mid "1.prems" \<open>j \<le> mid\<close> by simp
      qed
      have eq: "bisect_loop ticks target lo hi = bisect_loop ticks target (mid + 1) hi"
        using True lt by (subst bisect_loop.simps) (simp add: mid_def Let_def)
      have "mid + 1 \<le> bisect_loop ticks target (mid + 1) hi \<and> bisect_loop ticks target (mid + 1) hi \<le> hi \<and>
     (\<forall>j<bisect_loop ticks target (mid + 1) hi. fst (ticks ! j) < target) \<and>
     (bisect_loop ticks target (mid + 1) hi = length ticks - 1 \<or>
        target \<le> fst (ticks ! bisect_loop ticks target (mid + 1) hi))"
        using "1.IH"(1)[OF True mid_def lt "1.prems"(1) _ "1.prems"(3) below "1.prems"(5)] mid by simp
      then show ?thesis using eq mid by simp
    next
      case ge: False
      have eq: "bisect_loop ticks target lo hi = bisect_loop ticks target lo mid"
        using True ge by (subst bisect_loop.simps) (simp add: mid_def Let_def)
      have "lo \<le> bisect_loop ticks target lo mid \<and> bisect_loop ticks target lo mid \<le> mid \<and>
     (\<forall>j<bisect_loop ticks target lo mid. fst (ticks ! j) < target) \<and>
     (bisect_loop ticks target lo mid = length ticks - 1 \<or>
        target \<le> fst (ticks ! bisect_loop ticks target lo mid))"
        using "1.IH"(2)[OF True mid_def ge "1.prems"(1) mid(1) _ "1.prems"(4)] mid "1.prems"(3) ge by simp
      then show ?thesis using eq mid by simp
    qed
  qed
qed


lemma bisect_loop_start:
  fixes target :: int
  assumes "ticks \<noteq> []" "sorted (map fst ticks)"
  defines "lo \<equiv> bisect_loop ticks target 0 (length ticks - 1)"
  shows "lo < length ticks"
    and "\<forall>j<lo. fst (ticks ! j) < target"
    and "lo = length ticks - 1 \<or> target \<le> fst (ticks ! lo)"
proof -
  have "0 \<le> lo \<and> lo \<le> length ticks - 1 \<and> (\<forall>j<lo. fst (ticks ! j) < target) \<and>
     (lo = length ticks - 1 \<or> target \<le> fst (ticks ! lo))"
    unfolding lo_def using assms(1)
    by (intro bisect_loop_post [OF assms(2)]) simp_all
  then show "lo < length ticks" "\<forall>j<lo. fst (ticks ! j) < target"
    "lo = length ticks - 1 \<or> target \<le> fst (ticks ! lo)"
    using assms(1) by (cases ticks; auto)+
qed

lemma sorted_fst_mono:
  "sorted (map fst ticks) \<Longrightarrow> i \<le> j \<Longrightarrow> j < length ticks \<Longrightarrow> fst (ticks ! i) \<le> fst (ticks ! j)"
  using sorted_iff_nth_mono [of "map fst ticks"] by auto

text \<open>
  Claim C1. On a non-empty series sorted by timestamp, \<open>find_nearest_idx\<close> returns an
  index inside the series whose timestamp is at least as close to the query as the
  timestamp of every tick; a query before the first tick gives index 0 and a query after
  the last tick gives the last index.
\<close>

theorem find_nearest_idx_minimises:
  assumes "ticks \<noteq> []" "sorted (map fst ticks)"
  shows "find_nearest_idx ticks target < length ticks \<and>
    (\<forall>j<length ticks. \<bar>fst (ticks ! find_nearest_idx ticks target) - target\<bar> \<le> \<bar>fst (ticks ! j) - target\<bar>) \<and>
    (target < fst (hd ticks) \<longrightarrow> find_nearest_idx ticks target = 0) \<and>
    (fst (last ticks) < target \<longrightarrow> find_nearest_idx ticks target = length ticks - 1)"
proof -
  define lo where "lo = bisect_loop ticks target 0 (length ticks - 1)"
  define r where "r = find_nearest_idx ticks target"
  note L = bisect_loop_start [OF assms, of target, folded lo_def]
  note mono = sorted_fst_mono [OF assms(2)]
  have r: "r = (if lo > 0 \<and> \<bar>fst (ticks ! lo) - target\<bar> > \<bar>fst (ticks ! (lo - 1)) - target\<bar>
                then lo - 1 else lo)"
    using assms(1) by (simp add: r_def find_nearest_idx_def lo_def Let_def)
  have bound: "r < length ticks" using L(1) by (auto simp: r)
  have minim: "\<bar>fst (ticks ! r) - target\<bar> \<le> \<bar>fst (ticks ! j) - target\<bar>" if j: "j < length ticks" for j
  proof (cases "target \<le> fst (ticks ! lo)")
    case True
    show ?thesis
    proof (cases "j < lo")
      case True
      then have "0 < lo" "j \<le> lo - 1" by auto
      then have "fst (ticks ! j) \<le> fst (ticks ! (lo - 1))" using mono L(1) by simp
      moreover have "fst (ticks ! (lo - 1)) < target" using L(2) \<open>0 < lo\<close> by simp
      ultimately show ?thesis by (auto simp: r)
    next
      case False
      then have "fst (ticks ! lo) \<le> fst (ticks ! j)" using mono j by simp
      then show ?thesis using True by (auto simp: r)
    qed
  next
    case False
    then have last: "lo = length ticks - 1" using L(3) by auto
    then have le: "fst (ticks ! k) \<le> fst (ticks ! lo)" if "k < length ticks" for k
      using mono [of k lo] that L(1) by simp
    have "r = lo"
    proof (cases "0 < lo")
      case True
      then have "fst (ticks ! (lo - 1)) \<le> fst (ticks ! lo)" using le L(1) by simp
      then show ?thesis using False by (auto simp: r)
    qed (simp add: r)
    then show ?thesis using le [OF j] False by simp
  qed
  have first: "r = 0" if "target < fst (hd ticks)"
  proof -
    have "lo = 0"
    proof (rule ccontr)
      assume "lo \<noteq> 0"
      then have "fst (ticks ! 0) < target" using L(2) by simp
      then show False using that assms(1) by (simp add: hd_conv_nth)
    qed
    then show ?thesis by (simp add: r)
  qed
  have lst: "r = length ticks - 1" if "fst (last ticks) < target"
  proof -
    have lt: "fst (ticks ! (length ticks - 1)) < target"
      using that assms(1) by (simp add: last_conv_nth)
    have "\<not> target \<le> fst (ticks ! lo)"
    proof
      assume "target \<le> fst (ticks ! lo)"
      moreover have "fst (ticks ! lo) \<le> fst (ticks ! (length ticks - 1))"
        using mono [of lo "length ticks - 1"] L(1) by simp
      ultimately show False using lt by simp
    qed
    then have lo: "lo = length ticks - 1" using L(3) by auto
    have "r = lo"
    proof (cases "0 < lo")
      case True
      then have "fst (ticks ! (lo - 1)) \<le> fst (ticks ! lo)" using mono [of "lo - 1" lo] L(1) by simp
      then show ?thesis using lt lo by (auto simp: r)
    qed (simp add: r)
    then show ?thesis using lo by simp
  qed
  show ?thesis using bound minim first lst unfolding r_def by blast
qed

text \<open>The series with timestamps 0, 10, 20 and the query 14.\<close>

theorem find_nearest_idx_minimises_witness:
  "find_nearest_idx [(0, 1), (10, 2), (20, 3)] 14 < length [(0, 1), (10, 2), (20, 3) :: tick] \<and>
   \<bar>fst ([(0, 1), (10, 2), (20, 3) :: tick] ! find_nearest_idx [(0, 1), (10, 2), (20, 3)] 14) - 14\<bar>
     \<le> \<bar>fst ([(0, 1), (10, 2), (20, 3) :: tick] ! 2) - 14\<bar>"
proof -
  let ?t = "[(0, 1), (10, 2), (20, 3)] :: tick list"
  have h1: "?t \<noteq> []" by simp
  have h2: "sorted (map fst ?t)" by simp
  have h3: "2 < length ?t" by simp
  from find_nearest_idx_minimises [OF h1 h2, of 14]
  have "find_nearest_idx ?t 14 < length ?t"
    and "\<forall>j<length ?t. \<bar>fst (?t ! find_nearest_idx ?t 14) - 14\<bar> \<le> \<bar>fst (?t ! j) - 14\<bar>"
    by blast+
  then show ?thesis using h3 by blast
qed

lemma tie_returns_later:
  assumes "ticks \<noteq> []" "sorted (map fst ticks)"
    and "i < length ticks" "j < length ticks"
    and "fst (ticks ! i) < fst (ticks ! j)"
    and "target - fst (ticks ! i) = fst (ticks ! j) - target"
    and "\<forall>k<length ticks. \<not> (fst (ticks ! i) < fst (ticks ! k) \<and> fst (ticks ! k) < fst (ticks ! j))"
  shows "fst (ticks ! find_nearest_idx ticks target) = fst (ticks ! j) \<and>
         i < find_nearest_idx ticks target"
proof -
  define lo where "lo = bisect_loop ticks target 0 (length ticks - 1)"
  define r where "r = find_nearest_idx ticks target"
  note L = bisect_loop_start [OF assms(1,2), of target, folded lo_def]
  note mono = sorted_fst_mono [OF assms(2)]
  have r: "r = (if lo > 0 \<and> \<bar>fst (ticks ! lo) - target\<bar> > \<bar>fst (ticks ! (lo - 1)) - target\<bar>
                then lo - 1 else lo)"
    using assms(1) by (simp add: r_def find_nearest_idx_def lo_def Let_def)
  have between: "fst (ticks ! i) < target" "target < fst (ticks ! j)"
    using assms(5,6) by linarith+
  have nogap: "fst (ticks ! k) \<le> fst (ticks ! i) \<or> fst (ticks ! j) \<le> fst (ticks ! k)"
    if "k < length ticks" for k using assms(7) that by (meson not_le)
  have "\<not> lo \<le> i"
  proof
    assume "lo \<le> i"
    then have "fst (ticks ! lo) \<le> fst (ticks ! i)" using mono assms(3) by simp
    then have "\<not> target \<le> fst (ticks ! lo)" using between by simp
    then have "lo = length ticks - 1" using L(3) by auto
    then have "j \<le> lo" using assms(4) by simp
    then have "fst (ticks ! j) \<le> fst (ticks ! lo)" using mono L(1) by simp
    then show False using \<open>fst (ticks ! lo) \<le> fst (ticks ! i)\<close> assms(5) by simp
  qed
  then have ilo: "i < lo" by simp
  have "\<not> j < lo" using L(2) between by force
  then have "lo \<le> j" by simp
  then have lo_le: "fst (ticks ! lo) \<le> fst (ticks ! j)" using mono assms(4) by simp
  have "\<not> fst (ticks ! lo) \<le> fst (ticks ! i)"
  proof
    assume a: "fst (ticks ! lo) \<le> fst (ticks ! i)"
    then have "\<not> target \<le> fst (ticks ! lo)" using between by simp
    then have "lo = length ticks - 1" using L(3) by auto
    then have "fst (ticks ! j) \<le> fst (ticks ! lo)" using mono [of j lo] assms(4) L(1) by simp
    then show False using a assms(5) by simp
  qed
  then have lo_eq: "fst (ticks ! lo) = fst (ticks ! j)" using nogap [OF L(1)] lo_le by simp
  have "i \<le> lo - 1" "lo - 1 < lo" using ilo by simp_all
  then have "fst (ticks ! i) \<le> fst (ticks ! (lo - 1))" "fst (ticks ! (lo - 1)) < target"
    using mono [of i "lo - 1"] L(1,2) by simp_all
  moreover have "fst (ticks ! (lo - 1)) \<le> fst (ticks ! i) \<or> fst (ticks ! j) \<le> fst (ticks ! (lo - 1))"
    using nogap [of "lo - 1"] L(1) by simp
  ultimately have "\<not> \<bar>fst (ticks ! lo) - target\<bar> > \<bar>fst (ticks ! (lo - 1)) - target\<bar>"
    using lo_eq assms(6) between by linarith
  then have "r = lo" by (simp add: r)
  then show ?thesis using lo_eq ilo unfolding r_def by simp
qed

lemma earlier_only_if_strictly_closer:
  assumes "ticks \<noteq> []" "sorted (map fst ticks)"
    and "k < length ticks"
    and "fst (ticks ! find_nearest_idx ticks target) < target" "target \<le> fst (ticks ! k)"
  shows "\<bar>fst (ticks ! find_nearest_idx ticks target) - target\<bar> < \<bar>fst (ticks ! k) - target\<bar>"
proof -
  define lo where "lo = bisect_loop ticks target 0 (length ticks - 1)"
  define r where "r = find_nearest_idx ticks target"
  note L = bisect_loop_start [OF assms(1,2), of target, folded lo_def]
  note mono = sorted_fst_mono [OF assms(2)]
  have r: "r = (if lo > 0 \<and> \<bar>fst (ticks ! lo) - target\<bar> > \<bar>fst (ticks ! (lo - 1)) - target\<bar>
                then lo - 1 else lo)"
    using assms(1) by (simp add: r_def find_nearest_idx_def lo_def Let_def)
  have "\<not> k < lo" using L(2) assms(5) by force
  then have klo: "fst (ticks ! lo) \<le> fst (ticks ! k)" using mono [of lo k] assms(3) by simp
  have tlo: "target \<le> fst (ticks ! lo)"
  proof (rule ccontr)
    assume n: "\<not> target \<le> fst (ticks ! lo)"
    then have "lo = length ticks - 1" using L(3) by auto
    then have "fst (ticks ! k) \<le> fst (ticks ! lo)" using mono [of k lo] assms(3) L(1) by simp
    then show False using n assms(5) by simp
  qed
  have rlt: "fst (ticks ! r) < target" using assms(4) by (simp add: r_def)
  then have "r \<noteq> lo" using tlo by auto
  then have "\<bar>fst (ticks ! lo) - target\<bar> > \<bar>fst (ticks ! (lo - 1)) - target\<bar>" "r = lo - 1"
    by (auto simp: r split: if_splits)
  then have "\<bar>fst (ticks ! r) - target\<bar> < \<bar>fst (ticks ! k) - target\<bar>"
    using klo tlo by simp
  then show ?thesis by (simp add: r_def)
qed

text \<open>
  Claim C10. On a non-empty sorted series, when the query lies exactly halfway between two
  distinct timestamps with no tick strictly between them, the tick returned carries the
  later timestamp and sits at a higher index than the earlier tick. In general a tick
  before the query is returned only when it is strictly closer than every tick at or after
  the query.
\<close>

theorem find_nearest_idx_tie_later:
  assumes "ticks \<noteq> []" "sorted (map fst ticks)"
  shows "(\<forall>i<length ticks. \<forall>j<length ticks.
           fst (ticks ! i) < fst (ticks ! j) \<and>
           target - fst (ticks ! i) = fst (ticks ! j) - target \<and>
           (\<forall>k<length ticks. \<not> (fst (ticks ! i) < fst (ticks ! k) \<and> fst (ticks ! k) < fst (ticks ! j)))
           \<longrightarrow> fst (ticks ! find_nearest_idx ticks target) = fst (ticks ! j) \<and>
                i < find_nearest_idx ticks target) \<and>
         (\<forall>k<length ticks.
           fst (ticks ! find_nearest_idx ticks target) < target \<and> target \<le> fst (ticks ! k)
           \<longrightarrow> \<bar>fst (ticks ! find_nearest_idx ticks target) - target\<bar> < \<bar>fst (ticks ! k) - target\<bar>)"
  using tie_returns_later [OF assms] earlier_only_if_strictly_closer [OF assms] by blast

text \<open>The series with timestamps 0, 10, 20 and the query 15, halfway between 10 and 20.\<close>

theorem find_nearest_idx_tie_later_witness:
  "fst ([(0, 1), (10, 2), (20, 3) :: tick] ! find_nearest_idx [(0, 1), (10, 2), (20, 3)] 15)
     = fst ([(0, 1), (10, 2), (20, 3) :: tick] ! 2) \<and>
   1 < find_nearest_idx [(0, 1), (10, 2), (20, 3)] 15"
proof -
  let ?t = "[(0, 1), (10, 2), (20, 3)] :: tick list"
  have h1: "?t \<noteq> []" by simp
  have h2: "sorted (map fst ?t)" by simp
  have h3: "1 < length ?t" "2 < length ?t" by simp_all
  have h5: "fst (?t ! 1) < fst (?t ! 2)" by simp
  have h6: "15 - fst (?t ! 1) = fst (?t ! 2) - 15" by simp
  have h7: "\<forall>k<length ?t. \<not> (fst (?t ! 1) < fst (?t ! k) \<and> fst (?t ! k) < fst (?t ! 2))"
    by (simp add: less_Suc_eq numeral_3_eq_3)
  from find_nearest_idx_tie_later [OF h1 h2, of 15]
  have "\<forall>i<length ?t. \<forall>j<length ?t.
           fst (?t ! i) < fst (?t ! j) \<and>
           15 - fst (?t ! i) = fst (?t ! j) - 15 \<and>
           (\<forall>k<length ?t. \<not> (fst (?t ! i) < fst (?t ! k) \<and> fst (?t ! k) < fst (?t ! j)))
           \<longrightarrow> fst (?t ! find_nearest_idx ?t 15) = fst (?t ! j) \<and> i < find_nearest_idx ?t 15"
    by (rule conjunct1)
  then show ?thesis using h3 h5 h6 h7 by blast
qed

section \<open>Properties of the percentile\<close>

lemma percentile_total: "\<exists>v. percentile xs p = Inr v"
  by (cases "xs = []") (auto simp: percentile_def list_get_def Let_def)

lemma percentile_nearest_rank:
  assumes "xs \<noteq> []" "0 \<le> p" "p \<le> 100"
  shows "percentile xs p =
     Inr (xs ! nat (max 0 (min \<lfloor>real (length xs) * p / 100\<rfloor> (int (length xs) - 1))))"
proof -
  have "0 \<le> real (length xs) * p / 100" using assms by simp
  then have "py_int (real (length xs) * p / 100) = \<lfloor>real (length xs) * p / 100\<rfloor>"
    by (simp add: py_int_def)
  moreover have "0 < length xs" using assms by simp
  ultimately show ?thesis using assms(1)
    by (auto simp: percentile_def list_get_def Let_def)
qed

text \<open>
  Claim C6. For a non-empty list and \<open>p\<close> between 0 and 100, \<open>percentile\<close> returns the
  element at index \<open>floor (len * p / 100)\<close> clamped to \<open>[0, len - 1]\<close>, an index inside
  the list; on the empty list it returns 0; it raises for no list and no \<open>p\<close>; and
  \<open>percentile [1, 2, 3, 4, 5] 50\<close> is 3.
\<close>

theorem percentile_spec:
  "(xs \<noteq> [] \<and> 0 \<le> p \<and> p \<le> 100 \<longrightarrow>
      percentile xs p =
        Inr (xs ! nat (max 0 (min \<lfloor>real (length xs) * p / 100\<rfloor> (int (length xs) - 1)))) \<and>
      nat (max 0 (min \<lfloor>real (length xs) * p / 100\<rfloor> (int (length xs) - 1))) < length xs) \<and>
   percentile [] p = Inr 0 \<and>
   (\<exists>v. percentile xs p = Inr v) \<and>
   percentile [1, 2, 3, 4, 5] 50 = Inr 3"
proof -
  have ex: "percentile [1, 2, 3, 4, 5] 50 = Inr 3"
    by (simp add: percentile_def list_get_def py_int_def Let_def)
  have e: "percentile [] p = Inr 0" by (simp add: percentile_def)
  have b: "nat (max 0 (min \<lfloor>real (length xs) * p / 100\<rfloor> (int (length xs) - 1))) < length xs"
    if "xs \<noteq> []" using that by (cases xs) auto
  show ?thesis using percentile_nearest_rank [of xs p] percentile_total [of xs p] ex e b by blast
qed

text \<open>The clamp at \<open>p = 100\<close> and an interior rank on a list of four elements.\<close>

theorem percentile_spec_witness:
  "percentile [10, 20, 30, 40] 100 = Inr 40 \<and> percentile [10, 20, 30, 40] 30 = Inr 20"
proof -
  have h: "[10, 20, 30, 40] \<noteq> ([] :: real list) \<and> (0::real) \<le> 100 \<and> (100::real) \<le> 100" by simp
  have h2: "[10, 20, 30, 40] \<noteq> ([] :: real list) \<and> (0::real) \<le> 30 \<and> (30::real) \<le> 100" by simp
  from percentile_spec [of "[10, 20, 30, 40]" 100] h
  have a: "percentile [10, 20, 30, 40] 100 =
        Inr ([10, 20, 30, 40] ! nat (max 0 (min \<lfloor>real (length [10, 20, 30, 40 :: real]) * 100 / 100\<rfloor> (int (length [10, 20, 30, 40 :: real]) - 1))))"
    by blast
  from percentile_spec [of "[10, 20, 30, 40]" 30] h2
  have b: "percentile [10, 20, 30, 40] 30 =
        Inr ([10, 20, 30, 40] ! nat (max 0 (min \<lfloor>real (length [10, 20, 30, 40 :: real]) * 30 / 100\<rfloor> (int (length [10, 20, 30, 40 :: real]) - 1))))"
    by blast
  show ?thesis using a b by simp
qed

section \<open>Properties of the move/lag detector\<close>

lemma bind_err_Inr: "bind_err m f = Inr y \<longleftrightarrow> (\<exists>x. m = Inr x \<and> f x = Inr y)"
  by (cases m) (simp_all add: bind_err_def)

lemma bisect_loop_range: "lo \<le> hi \<Longrightarrow> lo \<le> bisect_loop ticks target lo hi \<and> bisect_loop ticks target lo hi \<le> hi"
proof (induction ticks target lo hi rule: bisect_loop.induct)
  case (1 ticks target lo hi)
  show ?case
  proof (cases "lo < hi")
    case False
    with "1.prems" show ?thesis by (simp add: bisect_loop.simps)
  next
    case True
    define mid where "mid = (lo + hi) div 2"
    have mid: "lo \<le> mid" "mid < hi" using True by (auto simp: mid_def)
    show ?thesis
    proof (cases "fst (ticks ! mid) < target")
      case lt: True
      have "bisect_loop ticks target lo hi = bisect_loop ticks target (mid + 1) hi"
        using True lt by (subst bisect_loop.simps) (simp add: mid_def Let_def)
      moreover have "mid + 1 \<le> bisect_loop ticks target (mid + 1) hi \<and> bisect_loop ticks target (mid + 1) hi \<le> hi"
        using "1.IH"(1)[OF True mid_def lt] mid by simp
      ultimately show ?thesis using mid by simp
    next
      case ge: False
      have "bisect_loop ticks target lo hi = bisect_loop ticks target lo mid"
        using True ge by (subst bisect_loop.simps) (simp add: mid_def Let_def)
      moreover have "lo \<le> bisect_loop ticks target lo mid \<and> bisect_loop ticks target lo mid \<le> mid"
        using "1.IH"(2)[OF True mid_def ge] mid by simp
      ultimately show ?thesis using mid by simp
    qed
  qed
qed

lemma find_nearest_idx_in_range: "ticks \<noteq> [] \<Longrightarrow> find_nearest_idx ticks target < length ticks"
  using bisect_loop_range [of 0 "length ticks - 1" ticks target]
  by (cases ticks) (auto simp: find_nearest_idx_def Let_def)

lemma price_at_time_Inr:
  "price_at_time ticks ms = Inr t \<longleftrightarrow> ticks \<noteq> [] \<and> ticks ! find_nearest_idx ticks ms = t"
proof (cases "ticks = []")
  case True
  then show ?thesis by (simp add: price_at_time_def find_nearest_idx_def)
next
  case False
  then show ?thesis using find_nearest_idx_in_range [OF False, of ms]
    by (auto simp: price_at_time_def Let_def)
qed

lemma pct_change_Inr: "pct_change p1 p0 = Inr v \<longleftrightarrow> p0 \<noteq> 0 \<and> v = (p1 - p0) / p0 * 100"
  by (auto simp: pct_change_def py_div_def bind_err_def)

lemma achieved_Inr: "achieved x e = Inr v \<longleftrightarrow> v = (if e \<noteq> 0 then x / e * 100 else 100)"
  by (auto simp: achieved_def py_div_def bind_err_def)

lemma watch_loop_Inr:
  "watch_loop tqqq sqqq base_ms t0_p s0_p offs (m1, m2) = Inr (tr, sr) \<Longrightarrow>
     (\<forall>off. tr off = (if off \<in> set offs
                        then Some ((snd (tqqq ! find_nearest_idx tqqq (base_ms + off)) - t0_p) / t0_p * 100)
                        else m1 off)) \<and>
     (\<forall>off. sr off = (if off \<in> set offs
                        then Some ((snd (sqqq ! find_nearest_idx sqqq (base_ms + off)) - s0_p) / s0_p * 100)
                        else m2 off))"
proof (induction offs arbitrary: m1 m2)
  case Nil
  then show ?case by simp
next
  case (Cons a offs)
  from Cons.prems obtain tc sc tp sp where
    a: "price_at_time tqqq (base_ms + a) = Inr tc" "price_at_time sqqq (base_ms + a) = Inr sc"
      "pct_change (snd tc) t0_p = Inr tp" "pct_change (snd sc) s0_p = Inr sp"
    and rest: "watch_loop tqqq sqqq base_ms t0_p s0_p offs (m1(a \<mapsto> tp), m2(a \<mapsto> sp)) = Inr (tr, sr)"
    by (auto split: sum.splits)
  from a have v: "tp = (snd (tqqq ! find_nearest_idx tqqq (base_ms + a)) - t0_p) / t0_p * 100"
     "sp = (snd (sqqq ! find_nearest_idx sqqq (base_ms + a)) - s0_p) / s0_p * 100"
    by (auto simp: price_at_time_Inr pct_change_Inr)
  from Cons.IH [OF rest] show ?case using v by auto
qed

lemma catchup_loop_find:
  assumes "\<forall>off\<in>set offs. d off = Some (r off)"
  shows "catchup_loop d e offs =
     Inr (case find (\<lambda>off. (if e \<noteq> 0 then r off / e * 100 else 100) \<ge> 90) offs of
            Some off \<Rightarrow> off | None \<Rightarrow> - 1)"
  using assms
proof (induction offs)
  case Nil
  then show ?case by simp
next
  case (Cons a offs)
  have "achieved (r a) e = Inr (if e \<noteq> 0 then r a / e * 100 else 100)"
    by (simp add: achieved_Inr)
  with Cons show ?case by (simp add: dict_get_def)
qed


lemma detect_move_Some:
  assumes "detect_move qqq tqqq sqqq i = Inr (Some ev)"
  defines "q_pct \<equiv> spec_reference_move_pct qqq i"
  shows "ev = \<lparr>direction = (if q_pct > 0 then ''UP'' else ''DOWN''),
               qqq_move_pct = py_round q_pct 4,
               expected_tqqq = py_round (q_pct * 3) 4,
               tqqq_at_end = py_round (spec_response_pct qqq tqqq i 0) 4,
               t_achieved_pct = py_round (spec_response_pct qqq tqqq i 0 / (q_pct * 3) * 100) 1,
               t_catchup_ms = spec_catchup_offset_ms qqq tqqq 3 i,
               expected_sqqq = py_round (q_pct * (- 3)) 4,
               sqqq_at_end = py_round (spec_response_pct qqq sqqq i 0) 4,
               s_achieved_pct = py_round (spec_response_pct qqq sqqq i 0 / (q_pct * (- 3)) * 100) 1\<rparr>"
    and "\<bar>q_pct\<bar> \<ge> move_threshold_pct"
proof -
  obtain q0_ms q0_p where q0: "qqq ! i = (q0_ms, q0_p)" by (cases "qqq ! i")
  from assms(1) obtain q1_ms q1_p qp t0_ms t0_p s0_ms s0_p tr sr t_at_end s_at_end ta sa cu where
    q1: "price_at_time qqq (q0_ms + move_window_ms) = Inr (q1_ms, q1_p)"
    and gap: "\<not> (q1_ms - q0_ms < 5000 \<or> q1_ms - q0_ms > 15000)"
    and qp: "pct_change q1_p q0_p = Inr qp"
    and thr: "\<not> \<bar>qp\<bar> < move_threshold_pct"
    and t0: "price_at_time tqqq q0_ms = Inr (t0_ms, t0_p)"
    and s0: "price_at_time sqqq q0_ms = Inr (s0_ms, s0_p)"
    and wl: "watch_loop tqqq sqqq (q0_ms + move_window_ms) t0_p s0_p watch_steps (Map.empty, Map.empty) = Inr (tr, sr)"
    and te: "dict_get tr 0 = Inr t_at_end" and se: "dict_get sr 0 = Inr s_at_end"
    and ta: "achieved t_at_end (qp * 3) = Inr ta" and sa: "achieved s_at_end (qp * (- 3)) = Inr sa"
    and cu: "catchup_loop tr (qp * 3) watch_steps = Inr cu"
    and ev: "ev = \<lparr>direction = (if qp > 0 then ''UP'' else ''DOWN''),
                        qqq_move_pct = py_round qp 4,
                        expected_tqqq = py_round (qp * 3) 4,
                        tqqq_at_end = py_round t_at_end 4,
                        t_achieved_pct = py_round ta 1,
                        t_catchup_ms = cu,
                        expected_sqqq = py_round (qp * (- 3)) 4,
                        sqqq_at_end = py_round s_at_end 4,
                        s_achieved_pct = py_round sa 1\<rparr>"
    by (auto simp: detect_move_def q0 bind_err_Inr Let_def split: if_splits)
  have qp_eq: "qp = q_pct"
    using q1 qp q0 by (simp add: price_at_time_Inr pct_change_Inr q_pct_def spec_reference_move_pct_def)
  have nz: "q_pct \<noteq> 0" using thr qp_eq by (auto simp: move_threshold_pct_def)
  have t0p: "t0_p = snd (tqqq ! find_nearest_idx tqqq (fst (qqq ! i)))"
    and s0p: "s0_p = snd (sqqq ! find_nearest_idx sqqq (fst (qqq ! i)))"
    using t0 s0 q0 by (auto simp: price_at_time_Inr)
  note W = watch_loop_Inr [OF wl]
  have tr: "tr off = Some (spec_response_pct qqq tqqq i off)" if "off \<in> set watch_steps" for off
    using W that by (simp add: spec_response_pct_def t0p q0)
  have sr: "sr off = Some (spec_response_pct qqq sqqq i off)" if "off \<in> set watch_steps" for off
    using W that by (simp add: spec_response_pct_def s0p q0)
  have z: "0 \<in> set watch_steps" by (simp add: watch_steps_def)
  have te': "t_at_end = spec_response_pct qqq tqqq i 0" using te tr [OF z] by (simp add: dict_get_def)
  have se': "s_at_end = spec_response_pct qqq sqqq i 0" using se sr [OF z] by (simp add: dict_get_def)
  have ta': "ta = spec_response_pct qqq tqqq i 0 / (q_pct * 3) * 100"
    using ta nz by (simp add: achieved_Inr te' qp_eq)
  have sa': "sa = spec_response_pct qqq sqqq i 0 / (q_pct * (- 3)) * 100"
    using sa nz by (simp add: achieved_Inr se' qp_eq)
  have "catchup_loop tr (qp * 3) watch_steps =
     Inr (case find (\<lambda>off. (if qp * 3 \<noteq> 0 then spec_response_pct qqq tqqq i off / (qp * 3) * 100 else 100) \<ge> 90) watch_steps of
            Some off \<Rightarrow> off | None \<Rightarrow> - 1)"
    by (rule catchup_loop_find) (simp add: tr)
  then have cu': "cu = spec_catchup_offset_ms qqq tqqq 3 i"
    using cu nz by (simp add: qp_eq spec_catchup_offset_ms_def q_pct_def)
  show "ev = \<lparr>direction = (if q_pct > 0 then ''UP'' else ''DOWN''),
               qqq_move_pct = py_round q_pct 4,
               expected_tqqq = py_round (q_pct * 3) 4,
               tqqq_at_end = py_round (spec_response_pct qqq tqqq i 0) 4,
               t_achieved_pct = py_round (spec_response_pct qqq tqqq i 0 / (q_pct * 3) * 100) 1,
               t_catchup_ms = spec_catchup_offset_ms qqq tqqq 3 i,
               expected_sqqq = py_round (q_pct * (- 3)) 4,
               sqqq_at_end = py_round (spec_response_pct qqq sqqq i 0) 4,
               s_achieved_pct = py_round (spec_response_pct qqq sqqq i 0 / (q_pct * (- 3)) * 100) 1\<rparr>"
    unfolding ev qp_eq te' se' ta' sa' cu' ..
  show "\<bar>q_pct\<bar> \<ge> move_threshold_pct" using thr qp_eq by simp
qed


text \<open>
  Claim C4. For an accepted detection, \<open>t_catchup_ms\<close> of the emitted record is the
  catch-up offset of the specification for the 3x series: either it is an offset of the
  ladder at which response / expected * 100 is at least 90 while every earlier offset of
  the ladder stays below 90, or it is \<open>-1\<close> and no offset of the ladder reaches 90; and
  \<open>-1\<close> is not an offset of the ladder.
\<close>

theorem catchup_first_ladder_offset:
  assumes "detect_move qqq tqqq sqqq i = Inr (Some ev)"
  shows "t_catchup_ms ev = spec_catchup_offset_ms qqq tqqq 3 i \<and>
    ((\<exists>k<length watch_steps.
        t_catchup_ms ev = watch_steps ! k \<and>
        spec_response_pct qqq tqqq i (watch_steps ! k) / (spec_reference_move_pct qqq i * 3) * 100 \<ge> 90 \<and>
        (\<forall>j<k. spec_response_pct qqq tqqq i (watch_steps ! j)
                  / (spec_reference_move_pct qqq i * 3) * 100 < 90))
     \<or> (t_catchup_ms ev = - 1 \<and>
         (\<forall>off\<in>set watch_steps.
            spec_response_pct qqq tqqq i off / (spec_reference_move_pct qqq i * 3) * 100 < 90))) \<and>
    - 1 \<notin> set watch_steps"
proof -
  let ?P = "\<lambda>off. spec_response_pct qqq tqqq i off / (spec_reference_move_pct qqq i * 3) * 100 \<ge> 90"
  have c: "t_catchup_ms ev = spec_catchup_offset_ms qqq tqqq 3 i"
    by (subst detect_move_Some(1) [OF assms]) simp
  have s: "- 1 \<notin> set watch_steps" by (simp add: watch_steps_def)
  show ?thesis
  proof (cases "find ?P watch_steps")
    case None
    then have "t_catchup_ms ev = - 1" by (simp add: c spec_catchup_offset_ms_def)
    moreover have "\<forall>off\<in>set watch_steps. \<not> ?P off" using None by (simp add: find_None_iff)
    ultimately show ?thesis using c s by (auto simp: not_le)
  next
    case (Some off)
    then have "t_catchup_ms ev = off" by (simp add: c spec_catchup_offset_ms_def)
    moreover from Some obtain k where "k < length watch_steps" "?P (watch_steps ! k)"
      "off = watch_steps ! k" "\<forall>j<k. \<not> ?P (watch_steps ! j)"
      by (auto simp: find_Some_iff)
    ultimately show ?thesis using c s by (auto simp: not_le)
  qed
qed

text \<open>
  The reference moves from 128 to 129 in 10 s; the 3x series has made half of the expected
  move at the end of the window and 95.8 percent of it 5 s later.
\<close>

theorem catchup_first_ladder_offset_witness:
  "detect_move [(0, 128), (10000, 129)] [(0, 128), (10000, 129.5), (15000, 130.875)]
      [(0, 128), (10000, 125)] 0
     = Inr (Some \<lparr>direction = ''UP'', qqq_move_pct = 0.7812,
                   expected_tqqq = 2.3438, tqqq_at_end = 1.1719,
                   t_achieved_pct = 50, t_catchup_ms = 5000,
                   expected_sqqq = - 2.3438, sqqq_at_end = - 2.3438,
                   s_achieved_pct = 100\<rparr>) \<and>
   spec_catchup_offset_ms [(0, 128), (10000, 129)]
      [(0, 128), (10000, 129.5), (15000, 130.875)] 3 0 = 5000"
proof -
  have e: "detect_move [(0, 128), (10000, 129)] [(0, 128), (10000, 129.5), (15000, 130.875)]
      [(0, 128), (10000, 125)] 0
     = Inr (Some \<lparr>direction = ''UP'', qqq_move_pct = 0.7812,
                   expected_tqqq = 2.3438, tqqq_at_end = 1.1719,
                   t_achieved_pct = 50, t_catchup_ms = 5000,
                   expected_sqqq = - 2.3438, sqqq_at_end = - 2.3438,
                   s_achieved_pct = 100\<rparr>)"
    by (simp add: detect_move_def price_at_time_def find_nearest_idx_def bisect_loop.simps
        bind_err_def pct_change_def py_div_def move_window_ms_def move_threshold_pct_def
        watch_steps_def achieved_def dict_get_def py_round_def Let_def)
  from catchup_first_ladder_offset [OF e] show ?thesis using e by simp
qed

text \<open>
  Claim C7, as stated, fails for the inverse series: the two inverse series below reach
  90 percent of the expected move at different offsets of the ladder (1 s and 5 s), and
  the record emitted is the same for both.
\<close>

theorem move_event_inverse_catchup_counterexample:
  "detect_move [(0, 128), (10000, 129)] [(0, 128), (10000, 131)]
      [(0, 128), (10000, 127), (11000, 125)] 0
     = detect_move [(0, 128), (10000, 129)] [(0, 128), (10000, 131)]
      [(0, 128), (10000, 127), (15000, 125)] 0 \<and>
   detect_move [(0, 128), (10000, 129)] [(0, 128), (10000, 131)]
      [(0, 128), (10000, 127), (11000, 125)] 0
     = Inr (Some \<lparr>direction = ''UP'', qqq_move_pct = 0.7812,
                   expected_tqqq = 2.3438, tqqq_at_end = 2.3438,
                   t_achieved_pct = 100, t_catchup_ms = 0,
                   expected_sqqq = - 2.3438, sqqq_at_end = - 0.7812,
                   s_achieved_pct = 33.3\<rparr>) \<and>
   spec_catchup_offset_ms [(0, 128), (10000, 129)] [(0, 128), (10000, 127), (11000, 125)] (- 3) 0
     = 1000 \<and>
   spec_catchup_offset_ms [(0, 128), (10000, 129)] [(0, 128), (10000, 127), (15000, 125)] (- 3) 0
     = 5000"
  by (simp add: detect_move_def price_at_time_def find_nearest_idx_def bisect_loop.simps
        bind_err_def pct_change_def py_div_def move_window_ms_def move_threshold_pct_def
        watch_steps_def achieved_def dict_get_def py_round_def Let_def
        spec_catchup_offset_ms_def spec_response_pct_def spec_reference_move_pct_def)

text \<open>
  Claim C7, amended. The record emitted for an accepted detection holds the catch-up
  offset of the 3x series only. For the inverse series it holds the expected move, the
  response at the end of the detection window and the achieved percentage, which depend
  on that series through its ticks nearest \<open>T0\<close> and \<open>T0 + detection_window\<close> alone.
\<close>

theorem move_event_contents:
  assumes "detect_move qqq tqqq sqqq i = Inr (Some ev)"
  shows "ev = \<lparr>direction = (if spec_reference_move_pct qqq i > 0 then ''UP'' else ''DOWN''),
               qqq_move_pct = py_round (spec_reference_move_pct qqq i) 4,
               expected_tqqq = py_round (spec_reference_move_pct qqq i * 3) 4,
               tqqq_at_end = py_round (spec_response_pct qqq tqqq i 0) 4,
               t_achieved_pct =
                 py_round (spec_response_pct qqq tqqq i 0 / (spec_reference_move_pct qqq i * 3) * 100) 1,
               t_catchup_ms = spec_catchup_offset_ms qqq tqqq 3 i,
               expected_sqqq = py_round (spec_reference_move_pct qqq i * (- 3)) 4,
               sqqq_at_end = py_round (spec_response_pct qqq sqqq i 0) 4,
               s_achieved_pct =
                 py_round (spec_response_pct qqq sqqq i 0 / (spec_reference_move_pct qqq i * (- 3)) * 100) 1\<rparr>"
  by (rule detect_move_Some(1) [OF assms])

text \<open>The first input of the counterexample.\<close>

theorem move_event_contents_witness:
  "detect_move [(0, 128), (10000, 129)] [(0, 128), (10000, 131)]
      [(0, 128), (10000, 127), (11000, 125)] 0
     = Inr (Some \<lparr>direction = ''UP'', qqq_move_pct = 0.7812,
                   expected_tqqq = 2.3438, tqqq_at_end = 2.3438,
                   t_achieved_pct = 100, t_catchup_ms = 0,
                   expected_sqqq = - 2.3438, sqqq_at_end = - 0.7812,
                   s_achieved_pct = 33.3\<rparr>) \<and>
   spec_catchup_offset_ms [(0, 128), (10000, 129)] [(0, 128), (10000, 131)] 3 0 = 0 \<and>
   py_round (spec_response_pct [(0, 128), (10000, 129)] [(0, 128), (10000, 127), (11000, 125)] 0 0) 4
     = - 0.7812"
proof -
  have e: "detect_move [(0, 128), (10000, 129)] [(0, 128), (10000, 131)]
      [(0, 128), (10000, 127), (11000, 125)] 0
     = Inr (Some \<lparr>direction = ''UP'', qqq_move_pct = 0.7812,
                   expected_tqqq = 2.3438, tqqq_at_end = 2.3438,
                   t_achieved_pct = 100, t_catchup_ms = 0,
                   expected_sqqq = - 2.3438, sqqq_at_end = - 0.7812,
                   s_achieved_pct = 33.3\<rparr>)"
    by (simp add: detect_move_def price_at_time_def find_nearest_idx_def bisect_loop.simps
        bind_err_def pct_change_def py_div_def move_window_ms_def move_threshold_pct_def
        watch_steps_def achieved_def dict_get_def py_round_def Let_def)
  from move_event_contents [OF e] show ?thesis using e by simp
qed

text \<open>
  Claim C8. When the expected move is exactly zero the achieved percentage is 100 and no
  division is evaluated; the expression raises for no pair of arguments.
\<close>

theorem achieved_zero_expected:
  "achieved x 0 = Inr 100 \<and> (\<exists>v. achieved x expected = Inr v)"
  by (simp add: achieved_Inr)

section \<open>Properties of the stop-trigger simulator\<close>

lemma stop_step_Inr:
  "stop_step stop_pct tqqq st (q_ms, q_p) = Inr st' \<longleftrightarrow>
     tqqq \<noteq> [] \<and>
     (let t_cur = tqqq ! find_nearest_idx tqqq q_ms;
          st1 = update_hwms st q_p (snd t_cur);
          q_drop = (hwm st1 - q_p) / hwm st1 * 100 in
      hwm st1 \<noteq> 0 \<and>
      (if q_drop \<ge> stop_pct \<and> q_drop < stop_pct + 0.05 \<and> q_ms - last_trigger_ms st1 > cooldown_ms
       then t_hwm st1 \<noteq> 0 \<and>
            st' = st1\<lparr>trigger_events := trigger_events st1 @
                          [\<lparr>qqq_drop = py_round q_drop 4,
                            tqqq_drop = py_round ((t_hwm st1 - snd t_cur) / t_hwm st1 * 100) 4,
                            ratio = py_round (if q_drop > 0
                                              then (t_hwm st1 - snd t_cur) / t_hwm st1 * 100 / q_drop
                                              else 0) 3,
                            tick_gap_ms = \<bar>fst t_cur - q_ms\<bar>\<rparr>],
                        last_trigger_ms := q_ms,
                        hwm := q_p,
                        t_hwm := snd t_cur\<rparr>
       else st' = st1))"
proof -
  have py_div_Inr: "py_div a b = Inr v \<longleftrightarrow> b \<noteq> 0 \<and> v = a / b" for a b v
    by (auto simp: py_div_def)
  show ?thesis
    unfolding stop_step_def prod.case bind_err_Inr price_at_time_Inr py_div_Inr Let_def
    by (auto simp: bind_err_Inr py_div_Inr)
qed


lemma update_hwms_keeps [simp]:
  "trigger_events (update_hwms st q_p t_p) = trigger_events st"
  "last_trigger_ms (update_hwms st q_p t_p) = last_trigger_ms st"
  by (simp_all add: update_hwms_def Let_def)

lemma stop_step_events:
  assumes "stop_step stop_pct tqqq st (q_ms, q_p) = Inr st'"
  defines "t_cur \<equiv> tqqq ! find_nearest_idx tqqq q_ms"
  defines "st1 \<equiv> update_hwms st q_p (snd t_cur)"
  defines "q_drop \<equiv> (hwm st1 - q_p) / hwm st1 * 100"
  defines "fires \<equiv> stop_pct \<le> q_drop \<and> q_drop < stop_pct + 0.05 \<and> q_ms - last_trigger_ms st > cooldown_ms"
  shows "fires \<Longrightarrow> length (trigger_events st') = length (trigger_events st) + 1"
    and "fires \<Longrightarrow> last_trigger_ms st' = q_ms"
    and "\<not> fires \<Longrightarrow> st' = st1"
    and "hwm st1 \<noteq> 0"
  using assms(1) unfolding stop_step_Inr Let_def fires_def q_drop_def st1_def t_cur_def
  by (auto split: if_splits)

text \<open>
  Claim C3, as stated, fails when exactly 60 seconds have elapsed. The run below records
  a trigger at 200000 ms. At 260000 ms the drawdown from the high-water mark 128 is again
  inside the band of the threshold 0.5 and 60000 ms have elapsed since the trigger, yet
  the run ends with the single event of 200000 ms.
\<close>

theorem trigger_at_exact_cooldown_counterexample:
  "stop_sim 0.5 [(100000, 128), (200000, 127.34375), (230000, 128), (260000, 127.34375)]
      [(100000, 64)]
     = Inr \<lparr>hwm = 128, t_hwm = 64, last_trigger_ms = 200000,
            trigger_events = [\<lparr>qqq_drop = 0.5127, tqqq_drop = 0, ratio = 0,
                                tick_gap_ms = 100000\<rparr>]\<rparr> \<and>
   stop_step 0.5 [(100000, 64)]
      \<lparr>hwm = 128, t_hwm = 64, last_trigger_ms = 200000,
        trigger_events = [\<lparr>qqq_drop = 0.5127, tqqq_drop = 0, ratio = 0, tick_gap_ms = 100000\<rparr>]\<rparr>
      (260000, 127.34375)
     = Inr \<lparr>hwm = 128, t_hwm = 64, last_trigger_ms = 200000,
            trigger_events = [\<lparr>qqq_drop = 0.5127, tqqq_drop = 0, ratio = 0,
                                tick_gap_ms = 100000\<rparr>]\<rparr> \<and>
   (0.5::real) \<le> (128 - 127.34375) / 128 * 100 \<and>
   (128 - 127.34375) / 128 * 100 < (0.5::real) + 0.05 \<and>
   (260000::int) - 200000 \<ge> cooldown_ms"
  by (simp add: stop_sim_def list_get_def bind_err_def py_range_def upt_conv_Cons
      stop_step_def price_at_time_def find_nearest_idx_def bisect_loop.simps
      update_hwms_def py_div_def py_round_def cooldown_ms_def Let_def)


lemma stop_step_last_trigger:
  assumes "stop_step stop_pct tqqq st q = Inr st'"
  shows "(length (trigger_events st') > length (trigger_events st) \<and>
            last_trigger_ms st' = fst q \<and> fst q - last_trigger_ms st > cooldown_ms)
         \<or> (length (trigger_events st') = length (trigger_events st) \<and>
            last_trigger_ms st' = last_trigger_ms st)"
proof -
  obtain q_ms q_p where q: "q = (q_ms, q_p)" by (cases q)
  show ?thesis using assms unfolding q stop_step_Inr Let_def
    by (auto split: if_splits)
qed

lemma trigger_times_spaced:
  "(\<forall>t\<in>set (trigger_times stop_pct qqq tqqq idxs st). t - last_trigger_ms st > cooldown_ms) \<and>
   sorted_wrt (\<lambda>a b. b - a > cooldown_ms) (trigger_times stop_pct qqq tqqq idxs st)"
proof (induction idxs arbitrary: st)
  case Nil
  then show ?case by simp
next
  case (Cons i idxs)
  show ?case
  proof (cases "stop_step stop_pct tqqq st (qqq ! i)")
    case (Inl e)
    then show ?thesis by simp
  next
    case (Inr st')
    note IH = Cons.IH [of st']
    have pos: "cooldown_ms > 0" by (simp add: cooldown_ms_def)
    from stop_step_last_trigger [OF Inr] show ?thesis
    proof (elim disjE conjE)
      assume a: "length (trigger_events st) < length (trigger_events st')"
        "last_trigger_ms st' = fst (qqq ! i)" "cooldown_ms < fst (qqq ! i) - last_trigger_ms st"
      have "\<forall>t\<in>set (trigger_times stop_pct qqq tqqq idxs st'). t - last_trigger_ms st > cooldown_ms"
        using IH a pos by fastforce
      then show ?thesis using IH a Inr by simp
    next
      assume a: "length (trigger_events st') = length (trigger_events st)"
        "last_trigger_ms st' = last_trigger_ms st"
      then show ?thesis using IH Inr by simp
    qed
  qed
qed

text \<open>
  Claim C3, amended. When the body of the loop completes at a sampled reference tick, it
  appends exactly one event if the drawdown of the reference from its high-water mark is
  in the band from \<open>stop_pct\<close> (included) to \<open>stop_pct + 0.05\<close> (excluded) and strictly
  more than 60000 ms separate the tick from the last trigger (from 0 before the first
  trigger), and it appends nothing otherwise. Hence, in every run, any two triggers are
  more than 60000 ms apart.
\<close>

theorem trigger_iff_band_and_cooldown:
  assumes "stop_step stop_pct tqqq st (q_ms, q_p) = Inr st'"
  shows "(let t_cur = tqqq ! find_nearest_idx tqqq q_ms;
              st1 = update_hwms st q_p (snd t_cur);
              q_drop = (hwm st1 - q_p) / hwm st1 * 100 in
          (length (trigger_events st') = length (trigger_events st) + 1)
            = (stop_pct \<le> q_drop \<and> q_drop < stop_pct + 0.05 \<and> q_ms - last_trigger_ms st > 60000) \<and>
          (length (trigger_events st') = length (trigger_events st))
            = (\<not> (stop_pct \<le> q_drop \<and> q_drop < stop_pct + 0.05 \<and> q_ms - last_trigger_ms st > 60000))) \<and>
         sorted_wrt (\<lambda>a b. b - a > 60000) (trigger_times stop_pct qqq tqqq idxs start) \<and>
         (\<forall>t\<in>set (trigger_times stop_pct qqq tqqq idxs start). t - last_trigger_ms start > 60000)"
proof -
  note E = stop_step_events [OF assms]
  let ?t = "tqqq ! find_nearest_idx tqqq q_ms"
  let ?st1 = "update_hwms st q_p (snd ?t)"
  let ?d = "(hwm ?st1 - q_p) / hwm ?st1 * 100"
  let ?f = "stop_pct \<le> ?d \<and> ?d < stop_pct + 0.05 \<and> q_ms - last_trigger_ms st > 60000"
  have a: "length (trigger_events st') = length (trigger_events st) + 1" if "?f"
    using E(1) that by (simp add: cooldown_ms_def)
  have b: "length (trigger_events st') = length (trigger_events st)" if "\<not> ?f"
    using E(3) that by (simp add: cooldown_ms_def)
  have "(length (trigger_events st') = length (trigger_events st) + 1) = ?f"
    "(length (trigger_events st') = length (trigger_events st)) = (\<not> ?f)"
    using a b by (cases "?f"; simp)+
  then show ?thesis
    using trigger_times_spaced [of stop_pct qqq tqqq idxs start]
    unfolding Let_def cooldown_ms_def by blast
qed

text \<open>
  The run of the counterexample: the step at 200000 ms appends an event, and the
  timestamps of the triggers of the whole run are evaluated.
\<close>

theorem trigger_iff_band_and_cooldown_witness:
  "stop_step 0.5 [(100000, 64)]
      \<lparr>hwm = 128, t_hwm = 64, last_trigger_ms = 0, trigger_events = []\<rparr> (200000, 127.34375)
     = Inr \<lparr>hwm = 127.34375, t_hwm = 64, last_trigger_ms = 200000,
            trigger_events = [\<lparr>qqq_drop = 0.5127, tqqq_drop = 0, ratio = 0,
                                tick_gap_ms = 100000\<rparr>]\<rparr> \<and>
   ((0.5::real) \<le> (128 - 127.34375) / 128 * 100 \<and> (128 - 127.34375) / 128 * 100 < (0.5::real) + 0.05
      \<and> (200000::int) - 0 > 60000) \<and>
   sorted_wrt (\<lambda>a b. b - a > 60000)
     (trigger_times 0.5 [(100000, 128), (200000, 127.34375), (230000, 128), (400000, 127.34375)]
        [(100000, 64)] [1, 2, 3]
        \<lparr>hwm = 128, t_hwm = 64, last_trigger_ms = 0, trigger_events = []\<rparr>) \<and>
   trigger_times 0.5 [(100000, 128), (200000, 127.34375), (230000, 128), (400000, 127.34375)]
        [(100000, 64)] [1, 2, 3]
        \<lparr>hwm = 128, t_hwm = 64, last_trigger_ms = 0, trigger_events = []\<rparr> = [200000, 400000]"
proof -
  have e: "stop_step 0.5 [(100000, 64)]
      \<lparr>hwm = 128, t_hwm = 64, last_trigger_ms = 0, trigger_events = []\<rparr> (200000, 127.34375)
     = Inr \<lparr>hwm = 127.34375, t_hwm = 64, last_trigger_ms = 200000,
            trigger_events = [\<lparr>qqq_drop = 0.5127, tqqq_drop = 0, ratio = 0,
                                tick_gap_ms = 100000\<rparr>]\<rparr>"
    by (simp add: stop_step_def price_at_time_def find_nearest_idx_def bisect_loop.simps
      bind_err_def update_hwms_def py_div_def py_round_def cooldown_ms_def Let_def)
  have t: "trigger_times 0.5 [(100000, 128), (200000, 127.34375), (230000, 128), (400000, 127.34375)]
        [(100000, 64)] [1, 2, 3]
        \<lparr>hwm = 128, t_hwm = 64, last_trigger_ms = 0, trigger_events = []\<rparr> = [200000, 400000]"
    by (simp add: stop_step_def price_at_time_def find_nearest_idx_def bisect_loop.simps
      bind_err_def update_hwms_def py_div_def py_round_def cooldown_ms_def Let_def)
  from trigger_iff_band_and_cooldown [OF e,
      where qqq = "[(100000, 128), (200000, 127.34375), (230000, 128), (400000, 127.34375)]"
        and idxs = "[1, 2, 3]"
        and start = "\<lparr>hwm = 128, t_hwm = 64, last_trigger_ms = 0, trigger_events = []\<rparr>"]
  have "sorted_wrt (\<lambda>a b. b - a > 60000)
     (trigger_times 0.5 [(100000, 128), (200000, 127.34375), (230000, 128), (400000, 127.34375)]
        [(100000, 64)] [1, 2, 3]
        \<lparr>hwm = 128, t_hwm = 64, last_trigger_ms = 0, trigger_events = []\<rparr>)"
    by blast
  then show ?thesis using e t by simp
qed


text \<open>
  Claim C5. For a threshold with \<open>0 < stop_pct\<close> and \<open>stop_pct + 0.05 \<le> 100\<close> (the
  thresholds of the source are 0.2 and 0.5): when the body of the loop appends an event,
  the event holds the rounded drawdown of the reference, the rounded simultaneous drawdown
  of the derived series from its own high-water mark and their rounded ratio; both
  high-water marks are then the current prices and the cooldown clock is the current
  timestamp; and the drawdown expression evaluated against the reset mark is 0 without a
  division by zero.
\<close>

theorem trigger_records_and_resets:
  assumes "stop_step stop_pct tqqq st (q_ms, q_p) = Inr st'"
    and "trigger_events st' \<noteq> trigger_events st"
    and "0 < stop_pct" and "stop_pct + 0.05 \<le> 100"
  shows "(let t_cur = tqqq ! find_nearest_idx tqqq q_ms;
              st1 = update_hwms st q_p (snd t_cur);
              q_drop = (hwm st1 - q_p) / hwm st1 * 100;
              t_drop = (t_hwm st1 - snd t_cur) / t_hwm st1 * 100 in
          trigger_events st' = trigger_events st @
             [\<lparr>qqq_drop = py_round q_drop 4, tqqq_drop = py_round t_drop 4,
               ratio = py_round (t_drop / q_drop) 3, tick_gap_ms = \<bar>fst t_cur - q_ms\<bar>\<rparr>] \<and>
          hwm st' = q_p \<and> t_hwm st' = snd t_cur \<and> last_trigger_ms st' = q_ms) \<and>
         bind_err (py_div (hwm st' - q_p) (hwm st')) (\<lambda>d. Inr (d * 100)) = Inr 0"
proof -
  let ?t = "tqqq ! find_nearest_idx tqqq q_ms"
  let ?st1 = "update_hwms st q_p (snd ?t)"
  let ?d = "(hwm ?st1 - q_p) / hwm ?st1 * 100"
  let ?f = "stop_pct \<le> ?d \<and> ?d < stop_pct + 0.05 \<and> q_ms - last_trigger_ms ?st1 > cooldown_ms"
  have S: "hwm ?st1 \<noteq> 0"
     "if ?f then t_hwm ?st1 \<noteq> 0 \<and>
            st' = ?st1\<lparr>trigger_events := trigger_events ?st1 @
                          [\<lparr>qqq_drop = py_round ?d 4,
                            tqqq_drop = py_round ((t_hwm ?st1 - snd ?t) / t_hwm ?st1 * 100) 4,
                            ratio = py_round (if ?d > 0
                                              then (t_hwm ?st1 - snd ?t) / t_hwm ?st1 * 100 / ?d
                                              else 0) 3,
                            tick_gap_ms = \<bar>fst ?t - q_ms\<bar>\<rparr>],
                        last_trigger_ms := q_ms, hwm := q_p, t_hwm := snd ?t\<rparr>
       else st' = ?st1"
    using assms(1) unfolding stop_step_Inr Let_def by blast+
  have f: "?f"
  proof (rule ccontr)
    assume "\<not> ?f"
    then have "st' = ?st1" using S(2) by simp
    then show False using assms(2) by simp
  qed
  then have pos: "?d > 0" using assms(3) by linarith
  have st': "st' = ?st1\<lparr>trigger_events := trigger_events ?st1 @
                          [\<lparr>qqq_drop = py_round ?d 4,
                            tqqq_drop = py_round ((t_hwm ?st1 - snd ?t) / t_hwm ?st1 * 100) 4,
                            ratio = py_round ((t_hwm ?st1 - snd ?t) / t_hwm ?st1 * 100 / ?d) 3,
                            tick_gap_ms = \<bar>fst ?t - q_ms\<bar>\<rparr>],
                        last_trigger_ms := q_ms, hwm := q_p, t_hwm := snd ?t\<rparr>"
    using S(2) f pos by simp
  have "q_p \<noteq> 0"
  proof
    assume "q_p = 0"
    then have "?d = 100" using S(1) by simp
    then show False using f assms(4) by linarith
  qed
  moreover have fields: "hwm st' = q_p" "t_hwm st' = snd ?t" "last_trigger_ms st' = q_ms"
    "trigger_events st' = trigger_events st @
       [\<lparr>qqq_drop = py_round ?d 4,
         tqqq_drop = py_round ((t_hwm ?st1 - snd ?t) / t_hwm ?st1 * 100) 4,
         ratio = py_round ((t_hwm ?st1 - snd ?t) / t_hwm ?st1 * 100 / ?d) 3,
         tick_gap_ms = \<bar>fst ?t - q_ms\<bar>\<rparr>]"
    by (subst st', simp)+
  ultimately have z: "bind_err (py_div (hwm st' - q_p) (hwm st')) (\<lambda>d. Inr (d * 100)) = Inr 0"
    by (simp add: py_div_def bind_err_def)
  show ?thesis unfolding Let_def using z fields by simp
qed

text \<open>The step at 200000 ms of the run above, with a derived series that has fallen from 64 to 63.\<close>

theorem trigger_records_and_resets_witness:
  "stop_step 0.5 [(100000, 64), (200000, 63)]
      \<lparr>hwm = 128, t_hwm = 64, last_trigger_ms = 0, trigger_events = []\<rparr> (200000, 127.34375)
     = Inr \<lparr>hwm = 127.34375, t_hwm = 63, last_trigger_ms = 200000,
            trigger_events = [\<lparr>qqq_drop = 0.5127, tqqq_drop = 1.5625, ratio = 3.048,
                                tick_gap_ms = 0\<rparr>]\<rparr> \<and>
   bind_err (py_div (127.34375 - 127.34375) 127.34375) (\<lambda>d. Inr (d * 100)) = Inr 0"
proof -
  have e: "stop_step 0.5 [(100000, 64), (200000, 63)]
      \<lparr>hwm = 128, t_hwm = 64, last_trigger_ms = 0, trigger_events = []\<rparr> (200000, 127.34375)
     = Inr \<lparr>hwm = 127.34375, t_hwm = 63, last_trigger_ms = 200000,
            trigger_events = [\<lparr>qqq_drop = 0.5127, tqqq_drop = 1.5625, ratio = 3.048,
                                tick_gap_ms = 0\<rparr>]\<rparr>"
    by (simp add: stop_step_def price_at_time_def find_nearest_idx_def bisect_loop.simps
      bind_err_def update_hwms_def py_div_def py_round_def cooldown_ms_def Let_def)
  have h: "trigger_events \<lparr>hwm = 127.34375, t_hwm = 63, last_trigger_ms = 200000,
            trigger_events = [\<lparr>qqq_drop = 0.5127, tqqq_drop = 1.5625, ratio = 3.048,
                                tick_gap_ms = 0\<rparr>]\<rparr>
       \<noteq> trigger_events \<lparr>hwm = 128, t_hwm = 64, last_trigger_ms = 0, trigger_events = []\<rparr>"
    by simp
  have p: "(0::real) < 0.5" "(0.5::real) + 0.05 \<le> 100" by simp_all
  from trigger_records_and_resets [OF e h p] show ?thesis using e by simp
qed

section \<open>High-water marks between resets\<close>

lemma stop_step_no_trigger:
  assumes "stop_step stop_pct tqqq st q = Inr st'"
    and "length (trigger_events st') = length (trigger_events st)"
  shows "st' = update_hwms st (snd q) (snd (tqqq ! find_nearest_idx tqqq (fst q)))"
proof -
  obtain q_ms q_p where q: "q = (q_ms, q_p)" by (cases q)
  show ?thesis using assms unfolding q stop_step_Inr Let_def
    by (auto split: if_splits)
qed

lemma stop_loop_events_mono:
  "stop_loop stop_pct qqq tqqq idxs st = Inr st' \<Longrightarrow>
     length (trigger_events st) \<le> length (trigger_events st')"
proof (induction idxs arbitrary: st)
  case Nil
  then show ?case by simp
next
  case (Cons i idxs)
  from Cons.prems obtain st1 where s: "stop_step stop_pct tqqq st (qqq ! i) = Inr st1"
    and r: "stop_loop stop_pct qqq tqqq idxs st1 = Inr st'"
    by (auto split: sum.splits)
  from stop_step_last_trigger [OF s] Cons.IH [OF r] show ?case by auto
qed

text \<open>A run of the loop without a trigger is a fold of \<open>update_hwms\<close> over the samples.\<close>

lemma stop_loop_no_trigger:
  assumes "stop_loop stop_pct qqq tqqq idxs st = Inr st'"
    and "trigger_events st' = trigger_events st"
  shows "st' = foldl (\<lambda>s i. update_hwms s (snd (qqq ! i))
                   (snd (tqqq ! find_nearest_idx tqqq (fst (qqq ! i))))) st idxs"
  using assms
proof (induction idxs arbitrary: st)
  case Nil
  then show ?case by simp
next
  case (Cons i idxs)
  from Cons.prems obtain st1 where s: "stop_step stop_pct tqqq st (qqq ! i) = Inr st1"
    and r: "stop_loop stop_pct qqq tqqq idxs st1 = Inr st'"
    by (auto split: sum.splits)
  have "length (trigger_events st) \<le> length (trigger_events st1)"
    using stop_step_last_trigger [OF s] by auto
  moreover have "length (trigger_events st1) \<le> length (trigger_events st')"
    by (rule stop_loop_events_mono [OF r])
  ultimately have eq: "length (trigger_events st1) = length (trigger_events st)"
    using Cons.prems(2) by simp
  have st1: "st1 = update_hwms st (snd (qqq ! i)) (snd (tqqq ! find_nearest_idx tqqq (fst (qqq ! i))))"
    by (rule stop_step_no_trigger [OF s eq])
  then have "trigger_events st' = trigger_events st1" using Cons.prems(2) by simp
  from Cons.IH [OF r this] show ?case by (simp add: st1)
qed

lemma Max_insert_max:
  fixes a :: "'a :: linorder"
  shows "finite A \<Longrightarrow> Max (insert (max a b) A) = max a (Max (insert b A))"
  by (cases "A = {}") (simp_all add: max.assoc)

lemma hwm_fold:
  "hwm (foldl (\<lambda>s i. update_hwms s (q i) (t i)) st idxs) = Max (set (hwm st # map q idxs))"
proof (induction idxs arbitrary: st)
  case Nil
  then show ?case by simp
next
  case (Cons i idxs)
  have "hwm (update_hwms st (q i) (t i)) = max (hwm st) (q i)"
    by (auto simp: update_hwms_def Let_def)
  then show ?case using Cons.IH [of "update_hwms st (q i) (t i)"]
    by (simp add: Max_insert_max)
qed

lemma t_hwm_fold_no_new_high:
  assumes "\<forall>j\<in>set idxs. q j \<le> hwm st"
  shows "t_hwm (foldl (\<lambda>s i. update_hwms s (q i) (t i)) st idxs) = Max (set (t_hwm st # map t idxs))
     \<and> hwm (foldl (\<lambda>s i. update_hwms s (q i) (t i)) st idxs) = hwm st"
  using assms
proof (induction idxs arbitrary: st)
  case Nil
  then show ?case by simp
next
  case (Cons i idxs)
  have u: "hwm (update_hwms st (q i) (t i)) = hwm st"
    "t_hwm (update_hwms st (q i) (t i)) = max (t_hwm st) (t i)"
    using Cons.prems by (auto simp: update_hwms_def Let_def)
  have "\<forall>j\<in>set idxs. q j \<le> hwm (update_hwms st (q i) (t i))" using Cons.prems u by simp
  from Cons.IH [OF this] show ?case using u
    by (simp add: Max_insert_max)
qed

lemma t_hwm_fold_new_high:
  assumes "idxs = pre @ k # post"
    and "q k > Max (set (hwm st # map q pre))"
    and "\<forall>j\<in>set post. q j \<le> q k"
  shows "t_hwm (foldl (\<lambda>s i. update_hwms s (q i) (t i)) st idxs) = Max (set (map t (k # post)))"
proof -
  let ?f = "\<lambda>s i. update_hwms s (q i) (t i)"
  define s1 where "s1 = foldl ?f st pre"
  have "hwm s1 < q k" using assms(2) unfolding s1_def hwm_fold by simp
  then have u: "hwm (update_hwms s1 (q k) (t k)) = q k" "t_hwm (update_hwms s1 (q k) (t k)) = t k"
    by (auto simp: update_hwms_def Let_def)
  have "\<forall>j\<in>set post. q j \<le> hwm (update_hwms s1 (q k) (t k))" using assms(3) u by simp
  from t_hwm_fold_no_new_high [OF this, of t]
  have "t_hwm (foldl ?f (update_hwms s1 (q k) (t k)) post) = Max (set (t k # map t post))"
    using u by simp
  then show ?thesis by (simp add: assms(1) s1_def)
qed

lemma t_hwm_ge_current:
  "t_hwm (update_hwms st q_p t_p) \<ge> t_p"
  by (auto simp: update_hwms_def Let_def)


text \<open>
  Claim C2, as stated, fails for the derived high-water mark. In the run below no trigger
  occurs; the derived prices looked up at 1000 ms and 2000 ms are 50 and 49, and at 2000 ms
  the reference sets a new high (101), which sets the derived mark to 49 although the
  maximum of the derived prices observed is 50.
\<close>

theorem derived_hwm_not_running_max_counterexample:
  "stop_sim 0.2 [(0, 100), (1000, 100), (2000, 101)] [(0, 50), (1000, 50), (2000, 49)]
     = Inr \<lparr>hwm = 101, t_hwm = 49, last_trigger_ms = 0, trigger_events = []\<rparr> \<and>
   price_at_time [(0, 50), (1000, 50), (2000, 49)] 1000 = Inr (1000, 50) \<and>
   price_at_time [(0, 50), (1000, 50), (2000, 49)] 2000 = Inr (2000, 49) \<and>
   Max {50, 49} \<noteq> (49 :: real)"
  by (simp add: stop_sim_def list_get_def bind_err_def py_range_def upt_conv_Cons
      stop_step_def price_at_time_def find_nearest_idx_def bisect_loop.simps
      update_hwms_def py_div_def py_round_def cooldown_ms_def Let_def)

text \<open>
  Claim C2, amended. Over a run of the loop in which no trigger occurs, the reference
  high-water mark is the maximum of its starting value and the sampled reference prices.
  The derived mark is re-based on the reference: if no sampled reference price exceeds the
  starting reference mark, it is the maximum of its starting value and the derived prices
  looked up; if the reference sets its last new high at the sample \<open>k\<close>, it is the maximum
  of the derived prices looked up at \<open>k\<close> and after. It is never below the derived price
  looked up last.
\<close>

theorem hwm_between_resets:
  assumes "stop_loop stop_pct qqq tqqq idxs st = Inr st'"
    and "trigger_events st' = trigger_events st"
  shows "hwm st' = Max (set (hwm st # map (\<lambda>i. snd (qqq ! i)) idxs)) \<and>
    ((\<forall>j\<in>set idxs. snd (qqq ! j) \<le> hwm st) \<longrightarrow>
       t_hwm st' = Max (set (t_hwm st #
          map (\<lambda>i. snd (tqqq ! find_nearest_idx tqqq (fst (qqq ! i)))) idxs))) \<and>
    (\<forall>pre k post.
       idxs = pre @ k # post \<and>
       snd (qqq ! k) > Max (set (hwm st # map (\<lambda>i. snd (qqq ! i)) pre)) \<and>
       (\<forall>j\<in>set post. snd (qqq ! j) \<le> snd (qqq ! k)) \<longrightarrow>
       t_hwm st' = Max (set (map (\<lambda>i. snd (tqqq ! find_nearest_idx tqqq (fst (qqq ! i)))) (k # post)))) \<and>
    (idxs \<noteq> [] \<longrightarrow> snd (tqqq ! find_nearest_idx tqqq (fst (qqq ! last idxs))) \<le> t_hwm st')"
proof -
  let ?q = "\<lambda>i. snd (qqq ! i)"
  let ?t = "\<lambda>i. snd (tqqq ! find_nearest_idx tqqq (fst (qqq ! i)))"
  have st': "st' = foldl (\<lambda>s i. update_hwms s (?q i) (?t i)) st idxs"
    by (rule stop_loop_no_trigger [OF assms])
  have a: "hwm st' = Max (set (hwm st # map ?q idxs))"
    unfolding st' by (rule hwm_fold)
  have b: "t_hwm st' = Max (set (t_hwm st # map ?t idxs))" if "\<forall>j\<in>set idxs. ?q j \<le> hwm st"
    unfolding st' using t_hwm_fold_no_new_high [OF that] by simp
  have c: "t_hwm st' = Max (set (map ?t (k # post)))"
    if "idxs = pre @ k # post" "?q k > Max (set (hwm st # map ?q pre))" "\<forall>j\<in>set post. ?q j \<le> ?q k"
    for pre k post
    unfolding st' using that by (rule t_hwm_fold_new_high)
  have d: "?t (last idxs) \<le> t_hwm st'" if "idxs \<noteq> []"
  proof -
    from that obtain xs x where "idxs = xs @ [x]" by (cases idxs rule: rev_cases) auto
    then show ?thesis unfolding st' by (simp add: t_hwm_ge_current)
  qed
  show ?thesis using a b c d by blast
qed

text \<open>The run of the counterexample, from the initial state over the samples 1 and 2.\<close>

theorem hwm_between_resets_witness:
  "stop_loop 0.2 [(0, 100), (1000, 100), (2000, 101)] [(0, 50), (1000, 50), (2000, 49)] [1, 2]
      \<lparr>hwm = 100, t_hwm = 50, last_trigger_ms = 0, trigger_events = []\<rparr>
     = Inr \<lparr>hwm = 101, t_hwm = 49, last_trigger_ms = 0, trigger_events = []\<rparr> \<and>
   Max (set [100, 100, 101 :: real]) = 101 \<and>
   Max (set (map (\<lambda>i. snd ([(0, 50), (1000, 50), (2000, 49) :: tick] !
        find_nearest_idx [(0, 50), (1000, 50), (2000, 49)]
          (fst ([(0, 100), (1000, 100), (2000, 101) :: tick] ! i)))) [2])) = 49"
proof -
  let ?Q = "[(0, 100), (1000, 100), (2000, 101)] :: tick list"
  let ?T = "[(0, 50), (1000, 50), (2000, 49)] :: tick list"
  let ?s = "\<lparr>hwm = 100, t_hwm = 50, last_trigger_ms = 0, trigger_events = []\<rparr>"
  let ?s' = "\<lparr>hwm = 101, t_hwm = 49, last_trigger_ms = 0, trigger_events = []\<rparr>"
  have e: "stop_loop 0.2 ?Q ?T [1, 2] ?s = Inr ?s'"
    by (simp add: bind_err_def stop_step_def price_at_time_def find_nearest_idx_def
      bisect_loop.simps update_hwms_def py_div_def py_round_def cooldown_ms_def Let_def)
  have h: "trigger_events ?s' = trigger_events ?s" by simp
  note R = hwm_between_resets [OF e h]
  have 1: "hwm ?s' = Max (set (hwm ?s # map (\<lambda>i. snd (?Q ! i)) [1, 2]))" using R by blast
  have p: "[1, 2] = [1] @ 2 # [] \<and>
       snd (?Q ! 2) > Max (set (hwm ?s # map (\<lambda>i. snd (?Q ! i)) [1])) \<and>
       (\<forall>j\<in>set []. snd (?Q ! j) \<le> snd (?Q ! 2))" by simp
  have 2: "t_hwm ?s' = Max (set (map (\<lambda>i. snd (?T ! find_nearest_idx ?T (fst (?Q ! i)))) (2 # [])))"
    using R p by blast
  show ?thesis using e 1 2 by simp
qed

section \<open>Properties of the rolling ratio sampler\<close>

lemma py_div_Inr: "py_div a b = Inr v \<longleftrightarrow> b \<noteq> 0 \<and> v = a / b"
  by (auto simp: py_div_def)

lemma ratio_sample_Some:
  assumes "ratio_sample qqq tqqq sqqq window_ms i = Inr (Some r)"
  defines "q1 \<equiv> qqq ! find_nearest_idx qqq (fst (qqq ! i) + window_ms)"
  defines "q_pct \<equiv> (snd q1 - snd (qqq ! i)) / snd (qqq ! i) * 100"
  shows "real_of_int window_ms * 0.5 \<le> real_of_int (fst q1 - fst (qqq ! i))"
    and "real_of_int (fst q1 - fst (qqq ! i)) \<le> real_of_int window_ms * 1.5"
    and "\<bar>q_pct\<bar> \<ge> 0.005"
    and "price_at_time qqq (fst (qqq ! i) + window_ms) = Inr q1"
    and "snd (qqq ! i) \<noteq> 0"
proof -
  obtain q0_ms q0_p where q0: "qqq ! i = (q0_ms, q0_p)" by (cases "qqq ! i")
  from assms(1) obtain q1_ms q1_p qp where
    p: "price_at_time qqq (q0_ms + window_ms) = Inr (q1_ms, q1_p)"
    and g: "\<not> (real_of_int (q1_ms - q0_ms) < real_of_int window_ms * 0.5
           \<or> real_of_int (q1_ms - q0_ms) > real_of_int window_ms * 1.5)"
    and c: "pct_change q1_p q0_p = Inr qp" and n: "\<not> \<bar>qp\<bar> < 0.005"
    by (auto simp: ratio_sample_def q0 bind_err_Inr Let_def split: if_splits)
  have q1: "q1 = (q1_ms, q1_p)" using p by (simp add: q1_def q0 price_at_time_Inr)
  have qp: "qp = q_pct" "q0_p \<noteq> 0" using c by (simp_all add: q_pct_def q1 q0 pct_change_Inr)
  show "real_of_int window_ms * 0.5 \<le> real_of_int (fst q1 - fst (qqq ! i))"
    "real_of_int (fst q1 - fst (qqq ! i)) \<le> real_of_int window_ms * 1.5"
    using g by (simp_all add: q1 q0 not_less)
  show "\<bar>q_pct\<bar> \<ge> 0.005" using n qp by simp
  show "price_at_time qqq (fst (qqq ! i) + window_ms) = Inr q1" using p by (simp add: q1 q0)
  show "snd (qqq ! i) \<noteq> 0" using qp by (simp add: q0)
qed

lemma ratio_loop_lengths:
  "ratio_loop qqq tqqq sqqq window_ms idxs (ts0, ss0) = Inr (ts, ss) \<Longrightarrow>
     length ts = length ts0 +
        length (filter (\<lambda>i. \<exists>r. ratio_sample qqq tqqq sqqq window_ms i = Inr (Some r)) idxs) \<and>
     length ss = length ss0 +
        length (filter (\<lambda>i. \<exists>r. ratio_sample qqq tqqq sqqq window_ms i = Inr (Some r)) idxs)"
proof (induction idxs arbitrary: ts0 ss0)
  case Nil
  then show ?case by simp
next
  case (Cons i idxs)
  show ?case
  proof (cases "ratio_sample qqq tqqq sqqq window_ms i")
    case (Inl e)
    then show ?thesis using Cons.prems by simp
  next
    case (Inr res)
    show ?thesis
    proof (cases res)
      case None
      then show ?thesis using Cons.prems Inr Cons.IH [of ts0 ss0] by simp
    next
      case (Some r)
      obtain a b where r: "r = (a, b)" by (cases r)
      show ?thesis using Cons.prems Inr Some r Cons.IH [of "ts0 @ [a]" "ss0 @ [b]"] by simp
    qed
  qed
qed

lemma window_summary_cases:
  assumes "window_summary t_ratios s_ratios = Inr rep"
  shows "case rep of
           Stats s \<Rightarrow> 11 \<le> length t_ratios \<and> n_samples s = length t_ratios
         | Insufficient n \<Rightarrow> length t_ratios < 11 \<and> n = length t_ratios"
  using assms
  by (auto simp: window_summary_def bind_err_Inr Let_def split: if_splits)


text \<open>
  Claim C9. A ratio sample is appended for the sampled reference tick \<open>i\<close> only if the
  gap to the reference tick nearest \<open>T + window\<close> is between 0.5 and 1.5 times the window
  and the magnitude of the reference move is at least 0.005 percent. For a window whose
  pass completes, the statistics are reported exactly when at least 11 samples were
  accepted, with that count, and the window is reported as insufficient, with the count,
  otherwise.
\<close>

theorem ratio_sample_guards:
  "(ratio_sample qqq tqqq sqqq window_ms i = Inr (Some r) \<longrightarrow>
      (let q0 = qqq ! i; q1 = qqq ! find_nearest_idx qqq (fst q0 + window_ms) in
       price_at_time qqq (fst q0 + window_ms) = Inr q1 \<and>
       real_of_int window_ms * 0.5 \<le> real_of_int (fst q1 - fst q0) \<and>
       real_of_int (fst q1 - fst q0) \<le> real_of_int window_ms * 1.5 \<and>
       snd q0 \<noteq> 0 \<and>
       \<bar>(snd q1 - snd q0) / snd q0 * 100\<bar> \<ge> 0.005)) \<and>
   (rolling_window qqq tqqq sqqq window_sec = Inr rep \<longrightarrow>
      (let accepted = length (filter
             (\<lambda>i. \<exists>r. ratio_sample qqq tqqq sqqq (window_sec * 1000) i = Inr (Some r))
             (py_range 0 (length qqq) (max 1 (length qqq div 500)))) in
       case rep of
         Stats s \<Rightarrow> 11 \<le> accepted \<and> n_samples s = accepted
       | Insufficient n \<Rightarrow> accepted < 11 \<and> n = accepted))"
proof (intro conjI impI)
  assume a: "ratio_sample qqq tqqq sqqq window_ms i = Inr (Some r)"
  show "let q0 = qqq ! i; q1 = qqq ! find_nearest_idx qqq (fst q0 + window_ms) in
       price_at_time qqq (fst q0 + window_ms) = Inr q1 \<and>
       real_of_int window_ms * 0.5 \<le> real_of_int (fst q1 - fst q0) \<and>
       real_of_int (fst q1 - fst q0) \<le> real_of_int window_ms * 1.5 \<and>
       snd q0 \<noteq> 0 \<and>
       \<bar>(snd q1 - snd q0) / snd q0 * 100\<bar> \<ge> 0.005"
    unfolding Let_def using ratio_sample_Some [OF a] by blast
next
  assume a: "rolling_window qqq tqqq sqqq window_sec = Inr rep"
  let ?idxs = "py_range 0 (length qqq) (max 1 (length qqq div 500))"
  from a obtain ts ss where
    l: "ratio_loop qqq tqqq sqqq (window_sec * 1000) ?idxs ([], []) = Inr (ts, ss)"
    and w: "window_summary ts ss = Inr rep"
    by (auto simp: rolling_window_def bind_err_Inr Let_def)
  have n: "length ts = length (filter
             (\<lambda>i. \<exists>r. ratio_sample qqq tqqq sqqq (window_sec * 1000) i = Inr (Some r)) ?idxs)"
    using ratio_loop_lengths [OF l] by simp
  show "let accepted = length (filter
             (\<lambda>i. \<exists>r. ratio_sample qqq tqqq sqqq (window_sec * 1000) i = Inr (Some r)) ?idxs) in
       case rep of
         Stats s \<Rightarrow> 11 \<le> accepted \<and> n_samples s = accepted
       | Insufficient n \<Rightarrow> accepted < 11 \<and> n = accepted"
    unfolding Let_def n [symmetric] by (rule window_summary_cases [OF w])
qed

text \<open>
  Twelve ticks, 5 s apart, of a reference rising by 1 per tick, a derived series rising by
  3 and one falling by 3, with the 5 s window: the eleven first ticks are accepted, the
  last one is not (the nearest tick 5 s later is the tick itself).
\<close>

theorem ratio_sample_guards_witness:
  "ratio_sample
       [(0, 128), (5000, 129), (10000, 130), (15000, 131), (20000, 132), (25000, 133),
        (30000, 134), (35000, 135), (40000, 136), (45000, 137), (50000, 138),
        (55000, 139)]
       [(0, 128), (5000, 131), (10000, 134), (15000, 137), (20000, 140), (25000, 143),
        (30000, 146), (35000, 149), (40000, 152), (45000, 155), (50000, 158),
        (55000, 161)]
       [(0, 128), (5000, 125), (10000, 122), (15000, 119), (20000, 116), (25000, 113),
        (30000, 110), (35000, 107), (40000, 104), (45000, 101), (50000, 98),
        (55000, 95)]
       5000 0 = Inr (Some (3, - 3)) \<and>
   rolling_window
       [(0, 128), (5000, 129), (10000, 130), (15000, 131), (20000, 132), (25000, 133),
        (30000, 134), (35000, 135), (40000, 136), (45000, 137), (50000, 138),
        (55000, 139)]
       [(0, 128), (5000, 131), (10000, 134), (15000, 137), (20000, 140), (25000, 143),
        (30000, 146), (35000, 149), (40000, 152), (45000, 155), (50000, 158),
        (55000, 161)]
       [(0, 128), (5000, 125), (10000, 122), (15000, 119), (20000, 116), (25000, 113),
        (30000, 110), (35000, 107), (40000, 104), (45000, 101), (50000, 98),
        (55000, 95)]
       5 = Inr (Stats \<lparr>n_samples = 11, t_med = 2.79, t_p10 = 2.652, t_p90 = 2.954, t_mae = 0.202,
                   s_med = - 3.531, s_p10 = - 4.069, s_p90 = - 3.096, s_mae = 0.563\<rparr>) \<and>
   price_at_time
       [(0, 128), (5000, 129), (10000, 130), (15000, 131), (20000, 132), (25000, 133),
        (30000, 134), (35000, 135), (40000, 136), (45000, 137), (50000, 138),
        (55000, 139)]
       (0 + 5000) = Inr (5000, 129) \<and>
   \<bar>((129::real) - 128) / 128 * 100\<bar> \<ge> 0.005"
proof -
  let ?Q = "[(0, 128), (5000, 129), (10000, 130), (15000, 131), (20000, 132), (25000, 133),
        (30000, 134), (35000, 135), (40000, 136), (45000, 137), (50000, 138),
        (55000, 139)] :: tick list"
  let ?T = "[(0, 128), (5000, 131), (10000, 134), (15000, 137), (20000, 140), (25000, 143),
        (30000, 146), (35000, 149), (40000, 152), (45000, 155), (50000, 158),
        (55000, 161)] :: tick list"
  let ?S = "[(0, 128), (5000, 125), (10000, 122), (15000, 119), (20000, 116), (25000, 113),
        (30000, 110), (35000, 107), (40000, 104), (45000, 101), (50000, 98),
        (55000, 95)] :: tick list"
  let ?R = "Stats \<lparr>n_samples = 11, t_med = 2.79, t_p10 = 2.652, t_p90 = 2.954, t_mae = 0.202,
                   s_med = - 3.531, s_p10 = - 4.069, s_p90 = - 3.096, s_mae = 0.563\<rparr>"
  have e1: "ratio_sample ?Q ?T ?S 5000 0 = Inr (Some (3, - 3))"
    by code_simp
  have e2: "rolling_window ?Q ?T ?S 5 = Inr ?R"
    by code_simp
  have e3: "?Q ! 0 = (0, 128)" "fst (0 :: int, 128 :: real) = 0" by simp_all
  from ratio_sample_guards [of ?Q ?T ?S 5000 0 "(3, - 3)" 5 ?R] e1
  have "price_at_time ?Q (fst (?Q ! 0) + 5000) = Inr (?Q ! find_nearest_idx ?Q (fst (?Q ! 0) + 5000))"
    unfolding Let_def by blast
  moreover have "?Q ! find_nearest_idx ?Q (fst (?Q ! 0) + 5000) = (5000, 129)"
    by code_simp
  ultimately have "price_at_time ?Q (0 + 5000) = Inr (5000, 129)" by (simp only: e3)
  then show ?thesis using e1 e2 by simp
qed

end
